theory Spec2Isabelle
  imports Main "HOL-Library.Sublist"
begin

section \<open>Data model of the episode route\<close>

text \<open>
  The interfaces of the route handler, one record each.  Field names carry a short
  prefix of their interface, since several interfaces share the names \<open>number\<close>,
  \<open>title\<close>, \<open>img\<close> and \<open>providerId\<close>.  A JavaScript \<open>number\<close> is modelled as an
  \<open>int\<close> (episode numbers, timestamps and ratings are whole numbers here), and a
  value of type \<open>T | null\<close> as a \<open>T option\<close> with \<open>None\<close> for \<open>null\<close>.
\<close>

record Episode =
  ep_id :: string
  ep_img :: "string option"
  ep_title :: string
  ep_hasDub :: bool
  ep_number :: int
  ep_rating :: "int option"
  ep_isFiller :: bool
  ep_updatedAt :: int
  ep_description :: "string option"

record Provider =
  pr_episodes :: "Episode list"
  pr_providerId :: string

record Latest =
  la_updatedAt :: int
  la_latestTitle :: string
  la_latestEpisode :: int

record EpisodesData =
  ed_data :: "Provider list"
  ed_latest :: Latest

record EpisodesResponse =
  er_episodes :: EpisodesData

text \<open>
  \<open>MetadataEpisode\<close> and \<open>EpisodeMetadata\<close> declare \<open>img\<close>, \<open>title\<close>, \<open>description\<close>
  and \<open>thumbnail\<close> as strings, but the handler reads each of them through \<open>??\<close>; the
  model admits \<open>null\<close> there (\<open>Some s\<close> is the declared case).
\<close>

record MetadataEpisode =
  me_id :: string
  me_description :: "string option"
  me_hasDub :: bool
  me_img :: "string option"
  me_isFiller :: bool
  me_number :: int
  me_title :: "string option"
  me_updatedAt :: int
  me_rating :: int

record EpisodeMetadata =
  em_number :: int
  em_title :: "string option"
  em_fullTitle :: string
  em_thumbnail :: "string option"

record EpTitle =
  et_english :: string
  et_romaji :: string
  et_native :: string

record AnimeData =
  ad_metadatas :: "EpisodeMetadata list"
  ad_title :: EpTitle

record MetadataProviderData =
  mp_providerId :: string
  mp_data :: "MetadataEpisode list"

text \<open>
  \<open>information\<close> has type \<open>any\<close> in the source.  The handler reads
  \<open>information.coverImage\<close> and \<open>information.title.{english, romaji, native}\<close>, each
  through \<open>??\<close>; these are the fields of the model.
\<close>

record InformationTitle =
  it_english :: "string option"
  it_romaji :: "string option"
  it_native :: "string option"

record Information =
  in_coverImage :: "string option"
  in_title :: InformationTitle

text \<open>The object literal \<open>{id, img, title, description, number}\<close> built per episode.\<close>

record ResolvedEpisode =
  re_id :: string
  re_img :: "string option"
  re_title :: string
  re_description :: string
  re_number :: int

section \<open>JavaScript operators used by the handler\<close>

text \<open>\<open>a ?? b\<close> where \<open>b\<close> may itself be nullish.\<close>

definition nullish_or :: "'a option \<Rightarrow> 'a option \<Rightarrow> 'a option" where
  "nullish_or a b = (case a of None \<Rightarrow> b | Some x \<Rightarrow> Some x)"

text \<open>\<open>a ?? b\<close> where \<open>b\<close> is a definite value (a template literal).\<close>

definition nullish_else :: "'a option \<Rightarrow> 'a \<Rightarrow> 'a" where
  "nullish_else a b = (case a of None \<Rightarrow> b | Some x \<Rightarrow> x)"

text \<open>\<open>x?.f\<close>: nullish when \<open>x\<close> is, the field otherwise.\<close>

definition opt_chain :: "'a option \<Rightarrow> ('a \<Rightarrow> 'b option) \<Rightarrow> 'b option" where
  "opt_chain x f = (case x of None \<Rightarrow> None | Some y \<Rightarrow> f y)"

text \<open>\<open>xs[0]\<close> is \<open>undefined\<close> on an empty array; an object is truthy, \<open>undefined\<close> is not.\<close>

definition index0 :: "'a list \<Rightarrow> 'a option" where
  "index0 xs = (case xs of [] \<Rightarrow> None | x # _ \<Rightarrow> Some x)"

definition truthy_object :: "'a option \<Rightarrow> bool" where
  "truthy_object x = (case x of None \<Rightarrow> False | Some _ \<Rightarrow> True)"

text \<open>A string is truthy unless it is empty.\<close>

definition truthy_string :: "string \<Rightarrow> bool" where
  "truthy_string s = (s \<noteq> [])"

text \<open>
  Number to string, as a template literal and \<open>JSON.stringify\<close> do it for a whole number of
  ordinary size: decimal digits, with a minus sign for a negative number.
\<close>

definition digitChar :: "nat \<Rightarrow> char" where
  "digitChar d = ''0123456789'' ! d"

fun natToString :: "nat \<Rightarrow> string" where
  "natToString n = (if n < 10 then [digitChar n] else natToString (n div 10) @ [digitChar (n mod 10)])"

declare natToString.simps [simp del]

definition numberToString :: "int \<Rightarrow> string" where
  "numberToString i = (if i < 0 then CHR ''-'' # natToString (nat (- i)) else natToString (nat i))"

text \<open>A nullish value inside a template literal prints as \<open>null\<close>.\<close>

definition templateString :: "string option \<Rightarrow> string" where
  "templateString v = (case v of None \<Rightarrow> ''null'' | Some s \<Rightarrow> s)"

section \<open>findEpisodeData\<close>

text \<open>
  The provider bundle the image lookup reads:
  \<open>episodeImages?.find((imageData) => imageData.providerId === 'tvdb' || episodeImages[0])\<close>.
\<close>

definition imageProvider :: "MetadataProviderData list option \<Rightarrow> MetadataProviderData option" where
  "imageProvider episodeImages =
     opt_chain episodeImages
       (\<lambda>imgs. List.find (\<lambda>imageData. mp_providerId imageData = ''tvdb'' \<or> truthy_object (index0 imgs)) imgs)"

text \<open>
  \<open>foundImage\<close>: the entry of that bundle with the episode's number.  The source wraps
  the lookup in a \<open>try\<close> that resets \<open>foundImage\<close> to \<open>null\<close>; on values of the
  declared types no step of the lookup raises.
\<close>

definition foundImage :: "MetadataProviderData list option \<Rightarrow> Episode \<Rightarrow> MetadataEpisode option" where
  "foundImage episodeImages episode =
     opt_chain (imageProvider episodeImages)
       (\<lambda>p. List.find (\<lambda>d. ep_number episode = me_number d) (mp_data p))"

definition foundMetadata :: "AnimeData \<Rightarrow> Episode \<Rightarrow> EpisodeMetadata option" where
  "foundMetadata metadata episode =
     List.find (\<lambda>meta. em_number meta = ep_number episode) (ad_metadatas metadata)"

definition ordinal :: "int \<Rightarrow> string" where
  "ordinal n =
     (if n = 1 then ''1st''
      else if n = 2 then ''2nd''
      else if n = 3 then ''3rd''
      else numberToString n @ ''th'')"

text \<open>The name of the anime inside the synthesized description.\<close>

definition animeTitle :: "Information \<Rightarrow> string" where
  "animeTitle information =
     templateString
       (nullish_or (nullish_or (it_english (in_title information)) (it_romaji (in_title information)))
          (it_native (in_title information)))"

text \<open>The callback of \<open>episodes.map\<close> in the \<open>try\<close> block (source lines 132 to 190).\<close>

definition episodeEntry ::
  "AnimeData \<Rightarrow> Information \<Rightarrow> MetadataProviderData list option \<Rightarrow> Episode \<Rightarrow> ResolvedEpisode" where
  "episodeEntry metadata information episodeImages episode =
     (let fImage = foundImage episodeImages episode;
          fMetadata = foundMetadata metadata episode;
          img = nullish_or
                  (nullish_or
                     (nullish_or (opt_chain fImage me_img) (opt_chain fMetadata em_thumbnail))
                     (in_coverImage information))
                  (ep_img episode);
          title = (if truthy_string (ep_title episode) \<and> \<not> prefix ''EP'' (ep_title episode)
                   then ep_title episode
                   else nullish_else
                          (nullish_or (opt_chain fImage me_title) (opt_chain fMetadata em_title))
                          (''Episode '' @ numberToString (ep_number episode)));
          description = nullish_else
                          (nullish_or (ep_description episode) (opt_chain fImage me_description))
                          (ordinal (ep_number episode) @ '' Episode of '' @ animeTitle information)
      in \<lparr>re_id = ep_id episode, re_img = img, re_title = title,
          re_description = description, re_number = ep_number episode\<rparr>)"

text \<open>The callback of \<open>episodes.map\<close> in the \<open>catch\<close> block (source lines 194 to 234).\<close>

definition episodeEntryCatch :: "AnimeData \<Rightarrow> Information \<Rightarrow> Episode \<Rightarrow> ResolvedEpisode" where
  "episodeEntryCatch metadata information episode =
     (let fMetadata = foundMetadata metadata episode;
          img = nullish_or (nullish_or (opt_chain fMetadata em_thumbnail) (in_coverImage information))
                  (ep_img episode);
          title = (if truthy_string (ep_title episode) \<and> \<not> prefix ''EP'' (ep_title episode)
                   then ep_title episode
                   else nullish_else (opt_chain fMetadata em_title)
                          (''Episode '' @ numberToString (ep_number episode)));
          description = nullish_else (ep_description episode)
                          (ordinal (ep_number episode) @ '' Episode of '' @ animeTitle information)
      in \<lparr>re_id = ep_id episode, re_img = img, re_title = title,
          re_description = description, re_number = ep_number episode\<rparr>)"

text \<open>
  \<open>findEpisodeData\<close>.  The source runs the first \<open>map\<close> inside a \<open>try\<close> whose
  \<open>catch\<close> block maps \<open>episodeEntryCatch\<close> instead.  With arguments of the declared
  types, and an \<open>information\<close> object that carries a \<open>title\<close> object, no property read
  of the first callback raises, so the function returns the list of the \<open>try\<close> block.
\<close>

definition findEpisodeData ::
  "Episode list \<Rightarrow> AnimeData \<Rightarrow> Information \<Rightarrow> MetadataProviderData list option \<Rightarrow> ResolvedEpisode list" where
  "findEpisodeData episodes metadata information episodeImages =
     map (episodeEntry metadata information episodeImages) episodes"

section \<open>JavaScript values, JSON.stringify and JSON.parse\<close>

text \<open>
  The values the handler passes around: JSON data, and the \<open>NextResponse\<close> object that
  the data closure returns when both providers fail (its status and the value it was
  built from).  An object is the list of its properties in insertion order.
\<close>

datatype jsvalue =
    JNull
  | JBool bool
  | JNum int
  | JStr string
  | JArr "jsvalue list"
  | JObj "(string \<times> jsvalue) list"
  | JResponse nat jsvalue

datatype error = NetworkError | SyntaxError

text \<open>
  \<open>JSON.stringify\<close>: the compact text, with the escapes that JavaScript writes.  A
  \<open>NextResponse\<close> has no enumerable property of its own, so it prints as \<open>{}\<close>.
\<close>

definition hexChar :: "nat \<Rightarrow> char" where
  "hexChar d = ''0123456789abcdef'' ! d"

definition escapeChar :: "char \<Rightarrow> string" where
  "escapeChar c =
     (if c = CHR 0x22 then [CHR 0x5C, CHR 0x22]
      else if c = CHR 0x5C then [CHR 0x5C, CHR 0x5C]
      else if c = CHR 0x08 then [CHR 0x5C, CHR ''b'']
      else if c = CHR 0x09 then [CHR 0x5C, CHR ''t'']
      else if c = CHR 0x0A then [CHR 0x5C, CHR ''n'']
      else if c = CHR 0x0C then [CHR 0x5C, CHR ''f'']
      else if c = CHR 0x0D then [CHR 0x5C, CHR ''r'']
      else if (of_char c :: nat) < 32
        then [CHR 0x5C, CHR ''u'', CHR ''0'', CHR ''0'',
              hexChar ((of_char c :: nat) div 16), hexChar ((of_char c :: nat) mod 16)]
      else [c])"

definition quoteString :: "string \<Rightarrow> string" where
  "quoteString s = CHR 0x22 # concat (map escapeChar s) @ [CHR 0x22]"

fun joinComma :: "string list \<Rightarrow> string" where
  "joinComma [] = []"
| "joinComma [s] = s"
| "joinComma (s # t # ts) = s @ CHR '','' # joinComma (t # ts)"

fun JSON_stringify :: "jsvalue \<Rightarrow> string" where
  "JSON_stringify JNull = ''null''"
| "JSON_stringify (JBool b) = (if b then ''true'' else ''false'')"
| "JSON_stringify (JNum i) = numberToString i"
| "JSON_stringify (JStr s) = quoteString s"
| "JSON_stringify (JArr vs) = CHR ''['' # joinComma (map JSON_stringify vs) @ '']''"
| "JSON_stringify (JObj kvs) =
     CHR ''{'' # joinComma (map (\<lambda>(k, v). quoteString k @ CHR '':'' # JSON_stringify v) kvs) @ ''}''"
| "JSON_stringify (JResponse st b) = ''{}''"

text \<open>
  \<open>JSON.parse\<close>: a recursive descent over the text, with fuel for the nesting.  A
  number with a fraction or an exponent, and a \<open>\u\<close> escape beyond one byte, are outside
  the model and are rejected.  A repeated key keeps its first position and its last value.
\<close>

definition isWhitespace :: "char \<Rightarrow> bool" where
  "isWhitespace c = (c = CHR '' '' \<or> c = CHR 0x09 \<or> c = CHR 0x0A \<or> c = CHR 0x0D)"

definition skipWhitespace :: "string \<Rightarrow> string" where
  "skipWhitespace s = dropWhile isWhitespace s"

definition hexValue :: "char \<Rightarrow> nat option" where
  "hexValue c =
     (let n = (of_char c :: nat) in
      if 48 \<le> n \<and> n < 58 then Some (n - 48)
      else if 97 \<le> n \<and> n < 103 then Some (n - 87)
      else if 65 \<le> n \<and> n < 71 then Some (n - 55)
      else None)"



definition unescapeChar :: "char \<Rightarrow> char option" where
  "unescapeChar e =
     (if e = CHR 0x22 then Some (CHR 0x22)
      else if e = CHR 0x5C then Some (CHR 0x5C)
      else if e = CHR ''/'' then Some (CHR ''/'')
      else if e = CHR ''b'' then Some (CHR 0x08)
      else if e = CHR ''f'' then Some (CHR 0x0C)
      else if e = CHR ''n'' then Some (CHR 0x0A)
      else if e = CHR ''r'' then Some (CHR 0x0D)
      else if e = CHR ''t'' then Some (CHR 0x09)
      else None)"

definition hex4 :: "char \<Rightarrow> char \<Rightarrow> char \<Rightarrow> char \<Rightarrow> char option" where
  "hex4 a b c d =
     (case (hexValue a, hexValue b, hexValue c, hexValue d) of
        (Some x, Some y, Some z, Some w) \<Rightarrow>
          (let n = ((x * 16 + y) * 16 + z) * 16 + w in if n < 256 then Some (char_of n) else None)
      | _ \<Rightarrow> None)"

definition consChar :: "char \<Rightarrow> (string \<times> string) option \<Rightarrow> (string \<times> string) option" where
  "consChar c p = (case p of None \<Rightarrow> None | Some (s, r) \<Rightarrow> Some (c # s, r))"

fun parseChars :: "string \<Rightarrow> (string \<times> string) option" where
  "parseChars [] = None"
| "parseChars (c # cs) =
     (if c = CHR 0x22 then Some ([], cs)
      else if c = CHR 0x5C then
        (case cs of
           [] \<Rightarrow> None
         | e # cs1 \<Rightarrow>
             if e = CHR ''u'' then
               (case cs1 of
                  h1 # h2 # h3 # h4 # cs2 \<Rightarrow>
                    (case hex4 h1 h2 h3 h4 of None \<Rightarrow> None | Some ch \<Rightarrow> consChar ch (parseChars cs2))
                | _ \<Rightarrow> None)
             else (case unescapeChar e of None \<Rightarrow> None | Some ch \<Rightarrow> consChar ch (parseChars cs1)))
      else if (of_char c :: nat) < 32 then None
      else consChar c (parseChars cs))"

definition isDigit :: "char \<Rightarrow> bool" where
  "isDigit c = (48 \<le> (of_char c :: nat) \<and> (of_char c :: nat) < 58)"

definition digitsValue :: "string \<Rightarrow> nat" where
  "digitsValue ds = foldl (\<lambda>a c. 10 * a + ((of_char c :: nat) - 48)) 0 ds"

definition parseNumber :: "string \<Rightarrow> (int \<times> string) option" where
  "parseNumber s =
     (let negative = (case s of [] \<Rightarrow> False | c # _ \<Rightarrow> c = CHR ''-'');
          s1 = (if negative then tl s else s);
          ds = takeWhile isDigit s1;
          r = dropWhile isDigit s1
      in if ds = [] then None
         else if 1 < length ds \<and> hd ds = CHR ''0'' then None
         else if (case r of [] \<Rightarrow> False | c # _ \<Rightarrow> c = CHR ''.'' \<or> c = CHR ''e'' \<or> c = CHR ''E'') then None
         else Some (if negative then - int (digitsValue ds) else int (digitsValue ds), r))"

definition objectInsert :: "(string \<times> jsvalue) list \<Rightarrow> string \<times> jsvalue \<Rightarrow> (string \<times> jsvalue) list" where
  "objectInsert props kv =
     (if fst kv \<in> set (map fst props)
      then map (\<lambda>p. if fst p = fst kv then kv else p) props
      else props @ [kv])"

definition objectOf :: "(string \<times> jsvalue) list \<Rightarrow> (string \<times> jsvalue) list" where
  "objectOf kvs = foldl objectInsert [] kvs"

definition startsWith :: "string \<Rightarrow> char \<Rightarrow> bool" where
  "startsWith s c = (case s of [] \<Rightarrow> False | d # _ \<Rightarrow> d = c)"

fun parseValue :: "nat \<Rightarrow> string \<Rightarrow> (jsvalue \<times> string) option"
  and parseElements :: "nat \<Rightarrow> string \<Rightarrow> (jsvalue list \<times> string) option"
  and parseMembers :: "nat \<Rightarrow> string \<Rightarrow> ((string \<times> jsvalue) list \<times> string) option" where
  "parseValue 0 s = None"
| "parseValue (Suc n) s0 =
     (let s = skipWhitespace s0 in
      if startsWith s (CHR 0x22) then
        (case parseChars (tl s) of None \<Rightarrow> None | Some (str, r) \<Rightarrow> Some (JStr str, r))
      else if startsWith s (CHR ''['') then
        (if startsWith (skipWhitespace (tl s)) (CHR '']'') then Some (JArr [], tl (skipWhitespace (tl s)))
         else (case parseElements n (tl s) of None \<Rightarrow> None | Some (vs, r) \<Rightarrow> Some (JArr vs, r)))
      else if startsWith s (CHR ''{'') then
        (if startsWith (skipWhitespace (tl s)) (CHR ''}'') then Some (JObj [], tl (skipWhitespace (tl s)))
         else (case parseMembers n (tl s) of None \<Rightarrow> None | Some (kvs, r) \<Rightarrow> Some (JObj (objectOf kvs), r)))
      else if prefix ''null'' s then Some (JNull, drop 4 s)
      else if prefix ''true'' s then Some (JBool True, drop 4 s)
      else if prefix ''false'' s then Some (JBool False, drop 5 s)
      else (case parseNumber s of None \<Rightarrow> None | Some (i, r) \<Rightarrow> Some (JNum i, r)))"
| "parseElements 0 s = None"
| "parseElements (Suc n) s =
     (case parseValue n s of
        None \<Rightarrow> None
      | Some (v, r) \<Rightarrow>
          (let r1 = skipWhitespace r in
           if startsWith r1 (CHR '','') then
             (case parseElements n (tl r1) of None \<Rightarrow> None | Some (vs, r2) \<Rightarrow> Some (v # vs, r2))
           else if startsWith r1 (CHR '']'') then Some ([v], tl r1)
           else None))"
| "parseMembers 0 s = None"
| "parseMembers (Suc n) s0 =
     (let s = skipWhitespace s0 in
      if startsWith s (CHR 0x22) then
        (case parseChars (tl s) of
           None \<Rightarrow> None
         | Some (k, r) \<Rightarrow>
             (let r1 = skipWhitespace r in
              if startsWith r1 (CHR '':'') then
                (case parseValue n (tl r1) of
                   None \<Rightarrow> None
                 | Some (v, r2) \<Rightarrow>
                     (let r3 = skipWhitespace r2 in
                      if startsWith r3 (CHR '','') then
                        (case parseMembers n (tl r3) of
                           None \<Rightarrow> None
                         | Some (kvs, r4) \<Rightarrow> Some ((k, v) # kvs, r4))
                      else if startsWith r3 (CHR ''}'') then Some ([(k, v)], tl r3)
                      else None))
              else None))
      else None)"

definition JSON_parse :: "string \<Rightarrow> error + jsvalue" where
  "JSON_parse s =
     (case parseValue (Suc (length s)) s of
        None \<Rightarrow> Inl SyntaxError
      | Some (v, r) \<Rightarrow> if skipWhitespace r = [] then Inr v else Inl SyntaxError)"



section \<open>The route handler\<close>

text \<open>The episode object and the provider bundle \<open>{episodes, providerId}\<close> as values.\<close>

definition nullable :: "string option \<Rightarrow> jsvalue" where
  "nullable v = (case v of None \<Rightarrow> JNull | Some s \<Rightarrow> JStr s)"

definition episodeObject :: "ResolvedEpisode \<Rightarrow> jsvalue" where
  "episodeObject e =
     JObj [(''id'', JStr (re_id e)), (''img'', nullable (re_img e)), (''title'', JStr (re_title e)),
           (''description'', JStr (re_description e)), (''number'', JNum (re_number e))]"

definition bundleObject :: "ResolvedEpisode list \<Rightarrow> string \<Rightarrow> jsvalue" where
  "bundleObject episodes providerId =
     JObj [(''episodes'', JArr (map episodeObject episodes)), (''providerId'', JStr providerId)]"

definition objectKeys :: "jsvalue \<Rightarrow> string list" where
  "objectKeys v = (case v of JObj props \<Rightarrow> map fst props | _ \<Rightarrow> [])"

text \<open>\<open>NextResponse.json(body, {status})\<close>; the status is 200 when none is given.\<close>

record Response =
  rs_status :: nat
  rs_body :: jsvalue

definition internalServerError :: jsvalue where
  "internalServerError = JObj [(''message'', JStr ''Internal Server Error''), (''status'', JNum 500)]"

text \<open>
  The outbound requests of one call of the handler, and what each of them gives:
  \<open>None\<close> when the request rejects, the typed response data otherwise.  The handler
  asks for the episode metadata and the general information a second time in its outer
  \<open>catch\<close> block; those requests have outcomes of their own.  The two provider requests
  are issued at most once per call: the outer \<open>catch\<close> block is entered only when an
  auxiliary request rejects, which is before the first block reaches the providers.  The
  element type \<open>'c\<close> is \<open>EpisodeConsumet\<close>, declared in a module that is not among the
  sources.  The calls of \<open>console.error\<close> have no effect on the response and are left out.
\<close>

datatype endpoint = ContentMetadata | EpisodesMetadata | Info | AnifyEpisodes | ConsumetEpisodes

record 'c Outcomes =
  oc_contentMetadata :: "MetadataProviderData list option"
  oc_episodesMetadata :: "AnimeData option"
  oc_info :: "Information option"
  oc_episodesMetadataRetry :: "AnimeData option"
  oc_infoRetry :: "Information option"
  oc_anifyEpisodes :: "EpisodesResponse option"
  oc_consumetEpisodes :: "'c list option"

text \<open>
  The inner \<open>try\<close>/\<open>catch\<close> (source lines 269 to 321, and again 340 to 390 without the
  \<open>episodeImages\<close> argument): the primary provider, then the fallback provider, whose
  failure makes the closure return a \<open>NextResponse\<close> of status 500.  The result is the
  value returned together with the requests issued.  \<open>convertToEpisode\<close> is imported from
  a module that is not among the sources and is a parameter here.
\<close>

definition providerFlow ::
  "('c \<Rightarrow> Episode) \<Rightarrow> 'c Outcomes \<Rightarrow> AnimeData \<Rightarrow> Information \<Rightarrow> MetadataProviderData list option
     \<Rightarrow> jsvalue \<times> endpoint list" where
  "providerFlow convertToEpisode oc episodeMetadata information episodeImages =
     (case oc_anifyEpisodes oc of
        Some anifyEpisodes \<Rightarrow>
          (JArr (map (\<lambda>anifyEpisode.
                   bundleObject
                     (findEpisodeData (pr_episodes anifyEpisode) episodeMetadata information episodeImages)
                     (if pr_providerId anifyEpisode = ''zoro'' then ''anirise'' else ''anizone''))
                 (ed_data (er_episodes anifyEpisodes))),
           [AnifyEpisodes])
      | None \<Rightarrow>
          (case oc_consumetEpisodes oc of
             None \<Rightarrow> (JResponse 500 internalServerError, [AnifyEpisodes, ConsumetEpisodes])
           | Some consumetEpisodes \<Rightarrow>
               (JArr [bundleObject
                        (findEpisodeData (map convertToEpisode consumetEpisodes)
                           episodeMetadata information episodeImages)
                        ''anizone''],
                [AnifyEpisodes, ConsumetEpisodes])))"

text \<open>
  The closure passed to \<open>getOrSetCache\<close> (source lines 241 to 392).  \<open>Promise.all\<close>
  rejects when one of its requests does; all of them have been issued by then.  The
  \<open>catch\<close> block asks again for the metadata and the information, not for the images,
  and a rejection there leaves the closure as an exception.
\<close>

definition fetchData :: "('c \<Rightarrow> Episode) \<Rightarrow> 'c Outcomes \<Rightarrow> (error + jsvalue) \<times> endpoint list" where
  "fetchData convertToEpisode oc =
     (case (oc_contentMetadata oc, oc_episodesMetadata oc, oc_info oc) of
        (Some episodeImages, Some episodeMetadata, Some information) \<Rightarrow>
          (case providerFlow convertToEpisode oc episodeMetadata information (Some episodeImages) of
             (v, calls) \<Rightarrow> (Inr v, [ContentMetadata, EpisodesMetadata, Info] @ calls))
      | _ \<Rightarrow>
          (case (oc_episodesMetadataRetry oc, oc_infoRetry oc) of
             (Some episodeMetadata, Some information) \<Rightarrow>
               (case providerFlow convertToEpisode oc episodeMetadata information None of
                  (v, calls) \<Rightarrow>
                    (Inr v, [ContentMetadata, EpisodesMetadata, Info, EpisodesMetadata, Info] @ calls))
           | _ \<Rightarrow> (Inl NetworkError, [ContentMetadata, EpisodesMetadata, Info, EpisodesMetadata, Info])))"

text \<open>
  Modelled from the spec: the cache facade \<open>@/functions/cache\<close> is not among the sources.
  The spec gives \<open>get(key) -> optional string\<close> and \<open>set(key, value, ttlSeconds) -> void\<close>,
  with expiry by time-to-live as the only eviction and "value present implies not yet
  expired".  An entry is a value with the second at which it expires.
\<close>

type_synonym cache = "string \<Rightarrow> (string \<times> nat) option"

definition cache_get :: "cache \<Rightarrow> nat \<Rightarrow> string \<Rightarrow> string option" where
  "cache_get c now key =
     (case c key of None \<Rightarrow> None | Some (v, expiry) \<Rightarrow> if now < expiry then Some v else None)"

definition cache_set :: "cache \<Rightarrow> nat \<Rightarrow> string \<Rightarrow> string \<Rightarrow> nat \<Rightarrow> cache" where
  "cache_set c now key v ttlSeconds = c(key \<mapsto> (v, now + ttlSeconds))"

text \<open>
  The \<open>else\<close> block of \<open>getOrSetCache\<close>: the closure runs, and its value is stored as
  text for five hours and returned as it is.  An exception of the closure leaves the
  cache untouched.
\<close>

definition fetchAndStore ::
  "string \<Rightarrow> (unit \<Rightarrow> (error + jsvalue) \<times> endpoint list) \<Rightarrow> cache \<Rightarrow> nat
     \<Rightarrow> (error + jsvalue) \<times> cache \<times> endpoint list" where
  "fetchAndStore key fetch c now =
     (case fetch () of
        (Inl e, calls) \<Rightarrow> (Inl e, c, calls)
      | (Inr freshData, calls) \<Rightarrow>
          (Inr freshData, cache_set c now key (JSON_stringify freshData) (5 * 60 * 60), calls))"

text \<open>
  \<open>getOrSetCache\<close>: the cached text is parsed when there is one and it is truthy;
  otherwise the \<open>else\<close> block runs.  The result carries the cache and the requests issued.
\<close>

definition getOrSetCache ::
  "string \<Rightarrow> (unit \<Rightarrow> (error + jsvalue) \<times> endpoint list) \<Rightarrow> cache \<Rightarrow> nat
     \<Rightarrow> (error + jsvalue) \<times> cache \<times> endpoint list" where
  "getOrSetCache key fetch c now =
     (case cache_get c now key of
        None \<Rightarrow> fetchAndStore key fetch c now
      | Some cachedData \<Rightarrow>
          if truthy_string cachedData then (JSON_parse cachedData, c, [])
          else fetchAndStore key fetch c now)"

text \<open>
  \<open>GET\<close>: the response, the cache after the request and the requests issued.  \<open>now\<close> is
  the second at which the request is served.
\<close>

definition GET ::
  "('c \<Rightarrow> Episode) \<Rightarrow> 'c Outcomes \<Rightarrow> cache \<Rightarrow> nat \<Rightarrow> string \<Rightarrow> Response \<times> cache \<times> endpoint list" where
  "GET convertToEpisode oc c now ident =
     (let cacheKey = ''episodesData:'' @ ident in
      case getOrSetCache cacheKey (\<lambda>_. fetchData convertToEpisode oc) c now of
        (Inr cachedEpisodes, c', calls) \<Rightarrow> (\<lparr>rs_status = 200, rs_body = cachedEpisodes\<rparr>, c', calls)
      | (Inl e, c', calls) \<Rightarrow> (\<lparr>rs_status = 500, rs_body = internalServerError\<rparr>, c', calls))"

text \<open>The bytes of a response body: \<open>NextResponse.json\<close> serialises with \<open>JSON.stringify\<close>.\<close>

definition responseText :: "Response \<Rightarrow> string" where
  "responseText r = JSON_stringify (rs_body r)"

section \<open>Precedence chains as the specification words them\<close>

text \<open>"The first non-null of" a list of candidates, in order.\<close>

fun firstNonNull :: "'a option list \<Rightarrow> 'a option" where
  "firstNonNull [] = None"
| "firstNonNull (None # xs) = firstNonNull xs"
| "firstNonNull (Some x # xs) = Some x"

text \<open>Sample inputs: one raw episode with a placeholder title, an image source whose first
  bundle is not the \<open>tvdb\<close> one, no per-episode metadata, and an anime without an English title.\<close>

definition sampleEpisode :: Episode where
  "sampleEpisode = \<lparr>ep_id = ''ep-1'', ep_img = Some ''raw.png'', ep_title = ''EP1'', ep_hasDub = False,
     ep_number = 1, ep_rating = None, ep_isFiller = False, ep_updatedAt = 0, ep_description = None\<rparr>"

definition sampleImages :: "MetadataProviderData list" where
  "sampleImages =
     [\<lparr>mp_providerId = ''tmdb'',
       mp_data = [\<lparr>me_id = ''m1'', me_description = None, me_hasDub = False, me_img = Some ''tmdb.png'',
                   me_isFiller = False, me_number = 1, me_title = Some ''Premiere'', me_updatedAt = 0,
                   me_rating = 0\<rparr>]\<rparr>,
      \<lparr>mp_providerId = ''tvdb'', mp_data = []\<rparr>]"

definition sampleMetadata :: AnimeData where
  "sampleMetadata = \<lparr>ad_metadatas = [],
     ad_title = \<lparr>et_english = ''Show'', et_romaji = ''Shou'', et_native = ''Sho''\<rparr>\<rparr>"

definition sampleInformation :: Information where
  "sampleInformation = \<lparr>in_coverImage = Some ''cover.png'',
     in_title = \<lparr>it_english = None, it_romaji = Some ''Shou'', it_native = Some ''Sho''\<rparr>\<rparr>"

text \<open>Sample requests: a converter for the fallback provider's episodes, an empty cache, and
  outcomes in which the primary provider rejects and the fallback provider answers.\<close>

definition sampleConvert :: "nat \<Rightarrow> Episode" where
  "sampleConvert n = sampleEpisode\<lparr>ep_id := ''c-'' @ natToString n, ep_number := int n\<rparr>"

definition emptyCache :: cache where
  "emptyCache = (\<lambda>_. None)"

definition sampleOutcomes :: "nat Outcomes" where
  "sampleOutcomes =
     \<lparr>oc_contentMetadata = Some sampleImages, oc_episodesMetadata = Some sampleMetadata,
      oc_info = Some sampleInformation, oc_episodesMetadataRetry = Some sampleMetadata,
      oc_infoRetry = Some sampleInformation, oc_anifyEpisodes = None, oc_consumetEpisodes = Some [7]\<rparr>"

text \<open>The condition under which \<open>getOrSetCache\<close> runs the closure: no entry, or a falsy one.\<close>

definition cacheMiss :: "cache \<Rightarrow> nat \<Rightarrow> string \<Rightarrow> bool" where
  "cacheMiss c now key = (case cache_get c now key of None \<Rightarrow> True | Some s \<Rightarrow> s = [])"

text \<open>
  The chains of the specification without the image lookup, on the data itself: \<open>img\<close>
  from the thumbnail of the first metadata record with the episode's number, the cover
  image, the raw image; \<open>title\<close> from the raw title unless it is a placeholder, that
  record's title, \<open>Episode N\<close>; \<open>description\<close> from the raw description, the synthesized
  sentence over the first non-null of the English, Romaji and Native titles.
\<close>

definition resolvedWithoutImages :: "AnimeData \<Rightarrow> Information \<Rightarrow> Episode \<Rightarrow> ResolvedEpisode \<Rightarrow> bool" where
  "resolvedWithoutImages metadata information e r =
     (re_id r = ep_id e \<and> re_number r = ep_number e
      \<and> re_img r =
          firstNonNull
            [Option.bind (List.find (\<lambda>meta. em_number meta = ep_number e) (ad_metadatas metadata))
               em_thumbnail,
             in_coverImage information, ep_img e]
      \<and> Some (re_title r) =
          (if ep_title e \<noteq> [] \<and> \<not> prefix ''EP'' (ep_title e) then Some (ep_title e)
           else firstNonNull
                  [Option.bind (List.find (\<lambda>meta. em_number meta = ep_number e) (ad_metadatas metadata))
                     em_title,
                   Some (''Episode '' @ numberToString (ep_number e))])
      \<and> Some (re_description r) =
          firstNonNull
            [ep_description e,
             Some (ordinal (ep_number e) @ '' Episode of '' @
                   (case firstNonNull [it_english (in_title information), it_romaji (in_title information),
                                       it_native (in_title information)] of
                      None \<Rightarrow> ''null'' | Some t \<Rightarrow> t))])"

text \<open>
  Sample metadata with a record for episode 1 and one for episode 7, and outcomes that
  deliver it: with the images, and with the image request rejecting.
\<close>

definition sampleMetadataEntries :: AnimeData where
  "sampleMetadataEntries =
     \<lparr>ad_metadatas =
        [\<lparr>em_number = 1, em_title = Some ''Pilot'', em_fullTitle = ''Show - Pilot'',
          em_thumbnail = Some ''thumb1.png''\<rparr>,
         \<lparr>em_number = 7, em_title = Some ''Seventh'', em_fullTitle = ''Show - Seventh'',
          em_thumbnail = Some ''thumb7.png''\<rparr>],
      ad_title = \<lparr>et_english = ''Show'', et_romaji = ''Shou'', et_native = ''Sho''\<rparr>\<rparr>"

definition metadataOutcomes :: "nat Outcomes" where
  "metadataOutcomes =
     sampleOutcomes\<lparr>oc_episodesMetadata := Some sampleMetadataEntries,
                    oc_episodesMetadataRetry := Some sampleMetadataEntries\<rparr>"

definition imagesFailOutcomes :: "nat Outcomes" where
  "imagesFailOutcomes = metadataOutcomes\<lparr>oc_contentMetadata := None\<rparr>"

text \<open>
  An episode of the canonical \<open>Episode\<close> shape as an object: the nine properties of the
  interface.
\<close>

definition canonicalEpisodeObject :: "Episode \<Rightarrow> jsvalue" where
  "canonicalEpisodeObject e =
     JObj [(''id'', JStr (ep_id e)),
           (''img'', case ep_img e of None \<Rightarrow> JNull | Some s \<Rightarrow> JStr s),
           (''title'', JStr (ep_title e)),
           (''hasDub'', JBool (ep_hasDub e)),
           (''number'', JNum (ep_number e)),
           (''rating'', case ep_rating e of None \<Rightarrow> JNull | Some n \<Rightarrow> JNum n),
           (''isFiller'', JBool (ep_isFiller e)),
           (''updatedAt'', JNum (ep_updatedAt e)),
           (''description'', case ep_description e of None \<Rightarrow> JNull | Some s \<Rightarrow> JStr s)]"

section \<open>Notions for the round trip through the cache\<close>

text \<open>What may follow a value in a JSON text: nothing, or a separator.\<close>

definition afterValue :: "string \<Rightarrow> bool" where
  "afterValue r = (case r of [] \<Rightarrow> True | c # _ \<Rightarrow> c = CHR '','' \<or> c = CHR '']'' \<or> c = CHR ''}'')"

text \<open>
  A value whose objects never repeat a key, as every JavaScript object is; the value
  \<open>JSON.parse\<close> gives back for its text (a \<open>NextResponse\<close> comes back as an empty
  object); and the nesting fuel its text needs.
\<close>

fun distinctKeys :: "jsvalue \<Rightarrow> bool" where
  "distinctKeys (JArr vs) = (\<forall>v \<in> set vs. distinctKeys v)"
| "distinctKeys (JObj props) = (distinct (map fst props) \<and> (\<forall>p \<in> set props. distinctKeys (snd p)))"
| "distinctKeys v = True"

fun plainValue :: "jsvalue \<Rightarrow> jsvalue" where
  "plainValue (JArr vs) = JArr (map plainValue vs)"
| "plainValue (JObj props) = JObj (map (\<lambda>(k, v). (k, plainValue v)) props)"
| "plainValue (JResponse st b) = JObj []"
| "plainValue v = v"

fun fuelOf :: "jsvalue \<Rightarrow> nat" where
  "fuelOf (JArr vs) = Suc (length vs + sum_list (map fuelOf vs))"
| "fuelOf (JObj props) = Suc (length props + sum_list (map (\<lambda>(k, v). fuelOf v) props))"
| "fuelOf v = Suc 0"

text \<open>A text that \<open>JSON.parse\<close> accepts and \<open>JSON.stringify\<close> writes back unchanged.\<close>

definition canonicalText :: "string \<Rightarrow> bool" where
  "canonicalText s = (case JSON_parse s of Inl _ \<Rightarrow> False | Inr v \<Rightarrow> JSON_stringify v = s)"

text \<open>The characters a serialised value can start with.\<close>

definition valueStart :: "char \<Rightarrow> bool" where
  "valueStart c =
     (c = CHR ''n'' \<or> c = CHR ''t'' \<or> c = CHR ''f'' \<or> c = CHR 0x22 \<or> c = CHR ''['' \<or> c = CHR ''{''
      \<or> c = CHR ''-'' \<or> isDigit c)"

text \<open>The text of one property of an object.\<close>

definition memberText :: "string \<times> jsvalue \<Rightarrow> string" where
  "memberText p = quoteString (fst p) @ CHR '':'' # JSON_stringify (snd p)"

text \<open>Outcomes in which every outbound request rejects.\<close>

definition deadOutcomes :: "nat Outcomes" where
  "deadOutcomes =
     \<lparr>oc_contentMetadata = None, oc_episodesMetadata = None, oc_info = None,
      oc_episodesMetadataRetry = None, oc_infoRetry = None, oc_anifyEpisodes = None,
      oc_consumetEpisodes = None\<rparr>"

section \<open>Properties of findEpisodeData\<close>

lemma findEpisodeData_nth:
  "i < length episodes \<Longrightarrow>
   findEpisodeData episodes metadata information episodeImages ! i =
     episodeEntry metadata information episodeImages (episodes ! i)"
  by (simp add: findEpisodeData_def)

lemma nullish_chain4:
  "nullish_or (nullish_or (nullish_or a b) c) d = firstNonNull [a, b, c, d]"
  by (cases a; cases b; cases c; cases d) (simp_all add: nullish_or_def)

lemma nullish_chain3:
  "nullish_or (nullish_or a b) c = firstNonNull [a, b, c]"
  by (cases a; cases b; cases c) (simp_all add: nullish_or_def)

lemma nullish_else_chain3:
  "Some (nullish_else (nullish_or a b) c) = firstNonNull [a, b, Some c]"
  by (cases a; cases b) (simp_all add: nullish_or_def nullish_else_def)

lemma sample_foundImage:
  "foundImage (Some sampleImages) sampleEpisode =
     Some \<lparr>me_id = ''m1'', me_description = None, me_hasDub = False, me_img = Some ''tmdb.png'',
           me_isFiller = False, me_number = 1, me_title = Some ''Premiere'', me_updatedAt = 0,
           me_rating = 0\<rparr>"
  by code_simp

lemma sample_foundMetadata: "foundMetadata sampleMetadata sampleEpisode = None"
  by code_simp

lemma opt_chain_bind: "opt_chain x f = Option.bind x f"
  by (cases x) (simp_all add: opt_chain_def)

lemma foundImage_first:
  "foundImage episodeImages e =
     (case episodeImages of
        None \<Rightarrow> None
      | Some [] \<Rightarrow> None
      | Some (p # ps) \<Rightarrow> List.find (\<lambda>d. ep_number e = me_number d) (mp_data p))"
  by (simp add: foundImage_def imageProvider_def opt_chain_def index0_def truthy_object_def
      split: option.splits list.splits)

lemma foundMetadata_find:
  "foundMetadata metadata e = List.find (\<lambda>meta. em_number meta = ep_number e) (ad_metadatas metadata)"
  by (simp add: foundMetadata_def)

lemma sample_metadata_entry:
  "List.find (\<lambda>meta. em_number meta = ep_number sampleEpisode) (ad_metadatas sampleMetadataEntries) =
     Some \<lparr>em_number = 1, em_title = Some ''Pilot'', em_fullTitle = ''Show - Pilot'',
           em_thumbnail = Some ''thumb1.png''\<rparr>"
  by code_simp

text \<open>
  Claim C4.  For every raw episode that \<open>findEpisodeData\<close> processes, the \<open>img\<close> of the
  result is the first non-null of: the \<open>img\<close> of the image match (the entry with the
  episode's number in the first bundle of \<open>episodeImages\<close>), the thumbnail of the metadata
  match (the first record of \<open>metadata.metadatas\<close> with the episode's number), the cover
  image of the general information, the raw episode's \<open>img\<close>.
\<close>

theorem findEpisodeData_img:
  "i < length episodes \<Longrightarrow>
   re_img (findEpisodeData episodes metadata information episodeImages ! i) =
     firstNonNull
       [Option.bind
          (case episodeImages of
             None \<Rightarrow> None
           | Some [] \<Rightarrow> None
           | Some (p # ps) \<Rightarrow> List.find (\<lambda>d. ep_number (episodes ! i) = me_number d) (mp_data p))
          me_img,
        Option.bind
          (List.find (\<lambda>meta. em_number meta = ep_number (episodes ! i)) (ad_metadatas metadata))
          em_thumbnail,
        in_coverImage information,
        ep_img (episodes ! i)]"
  by (simp add: findEpisodeData_nth episodeEntry_def Let_def nullish_chain4 opt_chain_bind
      foundImage_first foundMetadata_find del: firstNonNull.simps)

theorem findEpisodeData_img_witness:
  "(0::nat) < length [sampleEpisode]
   \<and> re_img (findEpisodeData [sampleEpisode] sampleMetadataEntries sampleInformation (Some sampleImages) ! 0) =
       Some ''tmdb.png''
   \<and> re_img (findEpisodeData [sampleEpisode] sampleMetadataEntries sampleInformation None ! 0) =
       Some ''thumb1.png''
   \<and> re_img (findEpisodeData [sampleEpisode] sampleMetadata sampleInformation None ! 0) =
       Some ''cover.png''
   \<and> re_img (findEpisodeData [sampleEpisode] sampleMetadata
               (sampleInformation\<lparr>in_coverImage := None\<rparr>) None ! 0) =
       Some ''raw.png''"
proof -
  have none: "List.find (\<lambda>meta. em_number meta = ep_number sampleEpisode) (ad_metadatas sampleMetadata) = None"
    by (simp add: sampleMetadata_def)
  have raw: "ep_img sampleEpisode = Some ''raw.png''" "in_coverImage sampleInformation = Some ''cover.png''"
    by (simp_all add: sampleEpisode_def sampleInformation_def)
  have a: "re_img (findEpisodeData [sampleEpisode] sampleMetadataEntries sampleInformation (Some sampleImages) ! 0) =
       Some ''tmdb.png''"
    using findEpisodeData_img [of 0 "[sampleEpisode]" sampleMetadataEntries sampleInformation
        "Some sampleImages"]
    by (simp add: sampleImages_def sampleEpisode_def)
  have b: "re_img (findEpisodeData [sampleEpisode] sampleMetadataEntries sampleInformation None ! 0) =
       Some ''thumb1.png''"
    using findEpisodeData_img [of 0 "[sampleEpisode]" sampleMetadataEntries sampleInformation None]
    by (simp add: sample_metadata_entry)
  have c: "re_img (findEpisodeData [sampleEpisode] sampleMetadata sampleInformation None ! 0) =
       Some ''cover.png''"
    using findEpisodeData_img [of 0 "[sampleEpisode]" sampleMetadata sampleInformation None]
    by (simp add: none raw)
  have d: "re_img (findEpisodeData [sampleEpisode] sampleMetadata
               (sampleInformation\<lparr>in_coverImage := None\<rparr>) None ! 0) = Some ''raw.png''"
    using findEpisodeData_img [of 0 "[sampleEpisode]" sampleMetadata
        "sampleInformation\<lparr>in_coverImage := None\<rparr>" None]
    by (simp add: none raw)
  from a b c d show ?thesis by simp
qed

lemma natToString_1: "natToString 1 = ''1''"
  by code_simp

lemma natToString_11: "natToString 11 = ''11''"
  by code_simp

lemma numberToString_1: "numberToString 1 = ''1''"
  by code_simp

lemma numberToString_11: "numberToString 11 = ''11''"
  by code_simp

lemma nullish_else_chain2: "Some (nullish_else a c) = firstNonNull [a, Some c]"
  by (cases a) (simp_all add: nullish_else_def)

text \<open>
  Claim C5.  The title of a resolved episode is the raw title when that is present and
  does not start with \<open>EP\<close> (the placeholder pattern), and otherwise the first non-null of
  the image match's title, the metadata match's title and the synthesized \<open>Episode N\<close>,
  the matches being the entry of the first image bundle and the first metadata record
  with the episode's number.  In particular the raw title \<open>EP1\<close> with the image title
  \<open>Premiere\<close> gives \<open>Premiere\<close> (whatever the metadata holds, so also without metadata),
  and the raw title \<open>The Beginning\<close> gives \<open>The Beginning\<close> whatever the other sources hold.
\<close>

theorem findEpisodeData_title:
  "i < length episodes \<Longrightarrow>
   Some (re_title (findEpisodeData episodes metadata information episodeImages ! i)) =
     (if ep_title (episodes ! i) \<noteq> [] \<and> \<not> prefix ''EP'' (ep_title (episodes ! i))
      then Some (ep_title (episodes ! i))
      else firstNonNull
             [Option.bind
                (case episodeImages of
                   None \<Rightarrow> None
                 | Some [] \<Rightarrow> None
                 | Some (p # ps) \<Rightarrow> List.find (\<lambda>d. ep_number (episodes ! i) = me_number d) (mp_data p))
                me_title,
              Option.bind
                (List.find (\<lambda>meta. em_number meta = ep_number (episodes ! i)) (ad_metadatas metadata))
                em_title,
              Some (''Episode '' @ numberToString (ep_number (episodes ! i)))])
   \<and> (ep_title (episodes ! i) = ''EP1''
        \<and> Option.bind
             (case episodeImages of
                None \<Rightarrow> None
              | Some [] \<Rightarrow> None
              | Some (p # ps) \<Rightarrow> List.find (\<lambda>d. ep_number (episodes ! i) = me_number d) (mp_data p))
             me_title = Some ''Premiere''
      \<longrightarrow> re_title (findEpisodeData episodes metadata information episodeImages ! i) = ''Premiere'')
   \<and> (ep_title (episodes ! i) = ''The Beginning''
      \<longrightarrow> re_title (findEpisodeData episodes metadata information episodeImages ! i) = ''The Beginning'')"
proof -
  assume i: "i < length episodes"
  let ?e = "episodes ! i"
  let ?out = "findEpisodeData episodes metadata information episodeImages ! i"
  let ?imageTitle = "Option.bind
                (case episodeImages of
                   None \<Rightarrow> None
                 | Some [] \<Rightarrow> None
                 | Some (p # ps) \<Rightarrow> List.find (\<lambda>d. ep_number ?e = me_number d) (mp_data p))
                me_title"
  let ?metadataTitle = "Option.bind
                (List.find (\<lambda>meta. em_number meta = ep_number ?e) (ad_metadatas metadata)) em_title"
  have out: "?out = episodeEntry metadata information episodeImages ?e"
    using i by (rule findEpisodeData_nth)
  have chain: "Some (re_title ?out) =
     (if ep_title ?e \<noteq> [] \<and> \<not> prefix ''EP'' (ep_title ?e)
      then Some (ep_title ?e)
      else firstNonNull [?imageTitle, ?metadataTitle, Some (''Episode '' @ numberToString (ep_number ?e))])"
    unfolding out
    by (simp add: episodeEntry_def Let_def truthy_string_def nullish_else_chain3 opt_chain_bind
        foundImage_first foundMetadata_find del: firstNonNull.simps)
  have placeholder: "re_title ?out = ''Premiere''"
    if "ep_title ?e = ''EP1''" "?imageTitle = Some ''Premiere''"
    using chain that by simp
  have real: "re_title ?out = ''The Beginning''" if "ep_title ?e = ''The Beginning''"
    using chain that by simp
  from chain placeholder real show ?thesis by blast
qed

theorem findEpisodeData_title_witness:
  "(0::nat) < length [sampleEpisode] \<and> ep_title ([sampleEpisode] ! 0) = ''EP1''
   \<and> ad_metadatas sampleMetadata = []
   \<and> re_title (findEpisodeData [sampleEpisode] sampleMetadata sampleInformation (Some sampleImages) ! 0)
       = ''Premiere''
   \<and> re_title (findEpisodeData [sampleEpisode\<lparr>ep_title := ''The Beginning''\<rparr>] sampleMetadataEntries
        sampleInformation (Some sampleImages) ! 0) = ''The Beginning''
   \<and> re_title (findEpisodeData [sampleEpisode] sampleMetadataEntries sampleInformation None ! 0) = ''Pilot''
   \<and> re_title (findEpisodeData [sampleEpisode] sampleMetadata sampleInformation None ! 0) = ''Episode 1''"
proof -
  have t: "ep_title sampleEpisode = ''EP1''" "ep_number sampleEpisode = 1"
    by (simp_all add: sampleEpisode_def)
  have none: "ad_metadatas sampleMetadata = []"
    by (simp add: sampleMetadata_def)
  have a: "re_title (findEpisodeData [sampleEpisode] sampleMetadata sampleInformation (Some sampleImages) ! 0)
       = ''Premiere''"
    using findEpisodeData_title [of 0 "[sampleEpisode]" sampleMetadata sampleInformation
        "Some sampleImages"]
    by (simp add: sampleImages_def sampleEpisode_def)
  have b: "re_title (findEpisodeData [sampleEpisode\<lparr>ep_title := ''The Beginning''\<rparr>] sampleMetadataEntries
        sampleInformation (Some sampleImages) ! 0) = ''The Beginning''"
    using findEpisodeData_title [of 0 "[sampleEpisode\<lparr>ep_title := ''The Beginning''\<rparr>]"
        sampleMetadataEntries sampleInformation "Some sampleImages"]
    by simp
  have c: "re_title (findEpisodeData [sampleEpisode] sampleMetadataEntries sampleInformation None ! 0) = ''Pilot''"
    using findEpisodeData_title [of 0 "[sampleEpisode]" sampleMetadataEntries sampleInformation None]
    by (simp add: t(1) sample_metadata_entry)
  have d: "re_title (findEpisodeData [sampleEpisode] sampleMetadata sampleInformation None ! 0) = ''Episode 1''"
    using findEpisodeData_title [of 0 "[sampleEpisode]" sampleMetadata sampleInformation None]
    by (simp add: t none numberToString_1)
  from t none a b c d show ?thesis by simp
qed



text \<open>
  Claim C7.  When the description is synthesized (no raw description and no image
  description), episode number 1 gives \<open>1st\<close>, number 2 gives \<open>2nd\<close>, number 3 gives \<open>3rd\<close> and
  number 11 gives \<open>11th\<close>, each followed by \<open>Episode of\<close> and the anime title.
\<close>

theorem synthesized_description_ordinal:
  "i < length episodes \<Longrightarrow>
   ep_description (episodes ! i) = None \<Longrightarrow>
   opt_chain (foundImage episodeImages (episodes ! i)) me_description = None \<Longrightarrow>
   (ep_number (episodes ! i) = 1 \<longrightarrow>
      re_description (findEpisodeData episodes metadata information episodeImages ! i) =
        ''1st Episode of '' @ animeTitle information)
   \<and> (ep_number (episodes ! i) = 2 \<longrightarrow>
      re_description (findEpisodeData episodes metadata information episodeImages ! i) =
        ''2nd Episode of '' @ animeTitle information)
   \<and> (ep_number (episodes ! i) = 3 \<longrightarrow>
      re_description (findEpisodeData episodes metadata information episodeImages ! i) =
        ''3rd Episode of '' @ animeTitle information)
   \<and> (ep_number (episodes ! i) = 11 \<longrightarrow>
      re_description (findEpisodeData episodes metadata information episodeImages ! i) =
        ''11th Episode of '' @ animeTitle information)"
  by (simp add: findEpisodeData_nth episodeEntry_def Let_def nullish_or_def nullish_else_def ordinal_def
      numberToString_11)

theorem synthesized_description_ordinal_witness:
  "(0::nat) < length [sampleEpisode\<lparr>ep_number := 11\<rparr>]
   \<and> ep_description ([sampleEpisode\<lparr>ep_number := 11\<rparr>] ! 0) = None
   \<and> opt_chain (foundImage (Some sampleImages) ([sampleEpisode\<lparr>ep_number := 11\<rparr>] ! 0)) me_description = None
   \<and> re_description (findEpisodeData [sampleEpisode\<lparr>ep_number := 11\<rparr>] sampleMetadata sampleInformation
        (Some sampleImages) ! 0) = ''11th Episode of Shou''
   \<and> re_description (findEpisodeData [sampleEpisode] sampleMetadata sampleInformation
        (Some sampleImages) ! 0) = ''1st Episode of Shou''"
proof -
  have n: "ep_description sampleEpisode = None" "ep_number sampleEpisode = 1"
    by (simp_all add: sampleEpisode_def)
  have f11: "foundImage (Some sampleImages) (sampleEpisode\<lparr>ep_number := 11\<rparr>) = None"
    by (simp add: foundImage_def imageProvider_def opt_chain_def sampleImages_def index0_def
        truthy_object_def)
  have t: "animeTitle sampleInformation = ''Shou''"
    by (simp add: animeTitle_def sampleInformation_def nullish_or_def templateString_def)
  show ?thesis
    using synthesized_description_ordinal [of 0 "[sampleEpisode\<lparr>ep_number := 11\<rparr>]" "Some sampleImages"
        sampleMetadata sampleInformation]
      synthesized_description_ordinal [of 0 "[sampleEpisode]" "Some sampleImages"
        sampleMetadata sampleInformation]
    by (simp add: n f11 t sample_foundImage opt_chain_def)
qed

text \<open>
  Claim C9.  For a non-empty \<open>episodeImages\<close> list the lookup reads the first bundle of
  the list, whatever its \<open>providerId\<close>: the second disjunct of the predicate is truthy for
  every element, so the comparison with \<open>tvdb\<close> never restricts the choice.  Only the empty
  list gives no bundle.
\<close>

theorem imageProvider_first:
  "imageProvider (Some (p # ps)) = Some p
   \<and> (\<forall>imageData. mp_providerId imageData = ''tvdb'' \<or> truthy_object (index0 (p # ps)))
   \<and> foundImage (Some (p # ps)) episode =
       List.find (\<lambda>d. ep_number episode = me_number d) (mp_data p)
   \<and> (imageProvider (Some imgs) = None \<longleftrightarrow> imgs = [])"
proof -
  have first: "imageProvider (Some (p # ps)) = Some p" for p :: MetadataProviderData and ps
    by (simp add: imageProvider_def opt_chain_def index0_def truthy_object_def)
  have "imageProvider (Some imgs) = None \<longleftrightarrow> imgs = []"
  proof (cases imgs)
    case Nil
    then show ?thesis by (simp add: imageProvider_def opt_chain_def)
  next
    case (Cons q qs)
    then show ?thesis using first [of q qs] by simp
  qed
  moreover have "foundImage (Some (p # ps)) episode =
       List.find (\<lambda>d. ep_number episode = me_number d) (mp_data p)"
    by (simp add: foundImage_def first opt_chain_def)
  moreover have "\<forall>imageData. mp_providerId imageData = ''tvdb'' \<or> truthy_object (index0 (p # ps))"
    by (simp add: index0_def truthy_object_def)
  ultimately show ?thesis using first by blast
qed

theorem imageProvider_first_witness:
  "map_option mp_providerId (imageProvider (Some sampleImages)) = Some ''tmdb''
   \<and> map mp_providerId sampleImages = [''tmdb'', ''tvdb'']
   \<and> imageProvider (Some []) = None"
  using imageProvider_first [of "hd sampleImages" "tl sampleImages" sampleEpisode "[]"]
  by (auto simp add: sampleImages_def)

lemma episodeEntry_id_number:
  "re_id (episodeEntry metadata information episodeImages e) = ep_id e"
  "re_number (episodeEntry metadata information episodeImages e) = ep_number e"
  by (simp_all add: episodeEntry_def Let_def)

lemma objectKeys_episodeObject:
  "objectKeys (episodeObject r) = [''id'', ''img'', ''title'', ''description'', ''number'']"
  by (simp add: objectKeys_def episodeObject_def)

lemma episodeEntry_ignores:
  "episodeEntry metadata information episodeImages
     (e\<lparr>ep_hasDub := h, ep_rating := r, ep_isFiller := f, ep_updatedAt := u\<rparr>) =
   episodeEntry metadata information episodeImages e"
  by (simp add: episodeEntry_def foundImage_def foundMetadata_def Let_def)

text \<open>
  Claim C10.  \<open>findEpisodeData\<close> returns a list of the length and order of its input; the
  i-th result carries the i-th input's \<open>id\<close> and \<open>number\<close> unchanged and has exactly the
  properties \<open>id\<close>, \<open>img\<close>, \<open>title\<close>, \<open>description\<close>, \<open>number\<close>; the input's \<open>hasDub\<close>, \<open>rating\<close>,
  \<open>isFiller\<close> and \<open>updatedAt\<close> do not reach the result.
\<close>

theorem findEpisodeData_shape:
  "length (findEpisodeData episodes metadata information episodeImages) = length episodes
   \<and> (\<forall>i < length episodes.
        re_id (findEpisodeData episodes metadata information episodeImages ! i) = ep_id (episodes ! i)
        \<and> re_number (findEpisodeData episodes metadata information episodeImages ! i) =
            ep_number (episodes ! i)
        \<and> objectKeys (episodeObject (findEpisodeData episodes metadata information episodeImages ! i)) =
            [''id'', ''img'', ''title'', ''description'', ''number''])
   \<and> findEpisodeData
        (map (\<lambda>e. e\<lparr>ep_hasDub := h e, ep_rating := r e, ep_isFiller := f e, ep_updatedAt := u e\<rparr>) episodes)
        metadata information episodeImages =
      findEpisodeData episodes metadata information episodeImages"
  by (simp add: findEpisodeData_nth episodeEntry_id_number objectKeys_episodeObject)
     (simp add: findEpisodeData_def episodeEntry_ignores)

theorem findEpisodeData_shape_witness:
  "length (findEpisodeData [sampleEpisode, sampleEpisode\<lparr>ep_id := ''ep-2'', ep_number := 2\<rparr>]
      sampleMetadata sampleInformation (Some sampleImages)) = 2
   \<and> map re_id (findEpisodeData [sampleEpisode, sampleEpisode\<lparr>ep_id := ''ep-2'', ep_number := 2\<rparr>]
      sampleMetadata sampleInformation (Some sampleImages)) = [''ep-1'', ''ep-2'']
   \<and> map re_number (findEpisodeData [sampleEpisode, sampleEpisode\<lparr>ep_id := ''ep-2'', ep_number := 2\<rparr>]
      sampleMetadata sampleInformation (Some sampleImages)) = [1, 2]"
proof -
  let ?eps = "[sampleEpisode, sampleEpisode\<lparr>ep_id := ''ep-2'', ep_number := 2\<rparr>]"
  let ?out = "findEpisodeData ?eps sampleMetadata sampleInformation (Some sampleImages)"
  note shape = findEpisodeData_shape [of ?eps sampleMetadata sampleInformation "Some sampleImages"]
  from shape have len: "length ?out = 2" by simp
  from shape have "re_id (?out ! 0) = ep_id (?eps ! 0) \<and> re_number (?out ! 0) = ep_number (?eps ! 0)"
    by simp
  moreover from shape have "re_id (?out ! 1) = ep_id (?eps ! 1) \<and> re_number (?out ! 1) = ep_number (?eps ! 1)"
    by simp
  ultimately have "map re_id ?out = [''ep-1'', ''ep-2''] \<and> map re_number ?out = [1, 2]"
    using len by (auto simp add: sampleEpisode_def list_eq_iff_nth_eq less_Suc_eq numeral_2_eq_2)
  with len show ?thesis by blast
qed

section \<open>JSON.parse inverts JSON.stringify\<close>

subsection \<open>Strings\<close>

lemma hexValue_hexChar: "d < 16 \<Longrightarrow> hexValue (hexChar d) = Some d"
proof -
  have "list_all (\<lambda>d. hexValue (hexChar d) = Some d) [0..<16]"
    by code_simp
  moreover assume "d < 16"
  ultimately show ?thesis by (simp add: list_all_iff)
qed

lemma hexValue_zero: "hexValue (CHR ''0'') = Some 0"
  by code_simp

lemma hex4_control:
  assumes "(of_char c :: nat) < 32"
  shows "hex4 (CHR ''0'') (CHR ''0'') (hexChar ((of_char c :: nat) div 16)) (hexChar ((of_char c :: nat) mod 16))
    = Some c"
proof -
  let ?n = "of_char c :: nat"
  have "?n div 16 < 16" using assms by simp
  then have a: "hexValue (hexChar (?n div 16)) = Some (?n div 16)" by (rule hexValue_hexChar)
  have b: "hexValue (hexChar (?n mod 16)) = Some (?n mod 16)" by (rule hexValue_hexChar) simp
  have "((0 * 16 + 0) * 16 + ?n div 16) * 16 + ?n mod 16 = ?n" by simp
  moreover have "?n < 256" using assms by simp
  ultimately show ?thesis
    by (simp add: hex4_def hexValue_zero a b Let_def)
qed

lemma unescape_simps:
  "unescapeChar (CHR 0x22) = Some (CHR 0x22)"
  "unescapeChar (CHR 0x5C) = Some (CHR 0x5C)"
  "unescapeChar (CHR ''b'') = Some (CHR 0x08)"
  "unescapeChar (CHR ''t'') = Some (CHR 0x09)"
  "unescapeChar (CHR ''n'') = Some (CHR 0x0A)"
  "unescapeChar (CHR ''f'') = Some (CHR 0x0C)"
  "unescapeChar (CHR ''r'') = Some (CHR 0x0D)"
  by (simp_all add: unescapeChar_def)

lemma parseChars_escapeChar:
  "parseChars (escapeChar c @ r) = consChar c (parseChars r)"
proof -
  consider (quote) "c = CHR 0x22" | (backslash) "c = CHR 0x5C" | (b) "c = CHR 0x08" | (t) "c = CHR 0x09"
    | (n) "c = CHR 0x0A" | (f) "c = CHR 0x0C" | (r) "c = CHR 0x0D"
    | (control) "c \<noteq> CHR 0x22" "c \<noteq> CHR 0x5C" "c \<noteq> CHR 0x08" "c \<noteq> CHR 0x09" "c \<noteq> CHR 0x0A"
        "c \<noteq> CHR 0x0C" "c \<noteq> CHR 0x0D" "(of_char c :: nat) < 32"
    | (plain) "c \<noteq> CHR 0x22" "c \<noteq> CHR 0x5C" "c \<noteq> CHR 0x08" "c \<noteq> CHR 0x09" "c \<noteq> CHR 0x0A"
        "c \<noteq> CHR 0x0C" "c \<noteq> CHR 0x0D" "\<not> (of_char c :: nat) < 32"
    by blast
  then show ?thesis
  proof cases
    case control
    then show ?thesis
      by (simp add: escapeChar_def hex4_control)
  next
    case plain
    then show ?thesis
      by (simp add: escapeChar_def)
  qed (simp_all add: escapeChar_def unescape_simps)
qed

lemma parseChars_escaped:
  "parseChars (concat (map escapeChar s) @ CHR 0x22 # r) = Some (s, r)"
  by (induction s) (simp_all add: parseChars_escapeChar consChar_def)

lemma parseChars_quoteString:
  "parseChars (tl (quoteString s @ r)) = Some (s, r)"
  by (simp add: quoteString_def parseChars_escaped)

lemma quoteString_hd: "quoteString s @ r = CHR 0x22 # tl (quoteString s @ r)"
  by (simp add: quoteString_def)

subsection \<open>Numbers\<close>

lemma isDigit_digitChar: "d < 10 \<Longrightarrow> isDigit (digitChar d) \<and> (of_char (digitChar d) :: nat) - 48 = d"
proof -
  have "list_all (\<lambda>d. isDigit (digitChar d) \<and> (of_char (digitChar d) :: nat) - 48 = d) [0..<10]"
    by code_simp
  moreover assume "d < 10"
  ultimately show ?thesis by (simp add: list_all_iff)
qed

lemma digitChar_zero: "d < 10 \<Longrightarrow> digitChar d = CHR ''0'' \<longleftrightarrow> d = 0"
proof -
  have "list_all (\<lambda>d. digitChar d = CHR ''0'' \<longleftrightarrow> d = 0) [0..<10]"
    by code_simp
  moreover assume "d < 10"
  ultimately show ?thesis by (simp add: list_all_iff)
qed

lemma natToString_digits: "\<forall>c \<in> set (natToString n). isDigit c"
proof (induction n rule: natToString.induct)
  case (1 n)
  show ?case
  proof (cases "n < 10")
    case True
    then show ?thesis by (simp add: natToString.simps [of n] isDigit_digitChar)
  next
    case False
    with 1 show ?thesis by (simp add: natToString.simps [of n] isDigit_digitChar)
  qed
qed

lemma natToString_nonempty: "natToString n \<noteq> []"
  by (simp add: natToString.simps [of n])

lemma digitsValue_snoc: "digitsValue (ds @ [c]) = 10 * digitsValue ds + ((of_char c :: nat) - 48)"
  by (simp add: digitsValue_def)

lemma digitsValue_natToString: "digitsValue (natToString n) = n"
proof (induction n rule: natToString.induct)
  case (1 n)
  show ?case
  proof (cases "n < 10")
    case True
    then show ?thesis by (simp add: natToString.simps [of n] digitsValue_def isDigit_digitChar)
  next
    case False
    with 1 show ?thesis
      by (simp add: natToString.simps [of n] digitsValue_snoc isDigit_digitChar)
  qed
qed

lemma natToString_hd: "0 < n \<Longrightarrow> hd (natToString n) \<noteq> CHR ''0''"
proof (induction n rule: natToString.induct)
  case (1 n)
  show ?case
  proof (cases "n < 10")
    case True
    with 1(2) show ?thesis by (simp add: natToString.simps [of n] digitChar_zero)
  next
    case False
    then have "0 < n div 10" by simp
    with 1(1) False have "hd (natToString (n div 10)) \<noteq> CHR ''0''" by simp
    with False show ?thesis
      by (simp add: natToString.simps [of n] natToString_nonempty)
  qed
qed

lemma natToString_leading: "1 < length (natToString n) \<Longrightarrow> hd (natToString n) \<noteq> CHR ''0''"
proof (cases "n < 10")
  case True
  assume "1 < length (natToString n)"
  with True show ?thesis by (simp add: natToString.simps [of n])
next
  case False
  then have "0 < n" by simp
  then show ?thesis by (rule natToString_hd)
qed

lemma afterValue_not_digit:
  "afterValue r \<Longrightarrow> takeWhile isDigit r = [] \<and> dropWhile isDigit r = r"
  by (cases r) (auto simp add: afterValue_def isDigit_def)

lemma afterValue_not_fraction:
  "afterValue r \<Longrightarrow> \<not> (case r of [] \<Rightarrow> False | c # _ \<Rightarrow> c = CHR ''.'' \<or> c = CHR ''e'' \<or> c = CHR ''E'')"
  by (cases r) (auto simp add: afterValue_def)

lemma takeWhile_digits:
  "afterValue r \<Longrightarrow> takeWhile isDigit (natToString n @ r) = natToString n"
  "afterValue r \<Longrightarrow> dropWhile isDigit (natToString n @ r) = r"
  using natToString_digits [of n] afterValue_not_digit [of r]
  by (simp_all add: takeWhile_append dropWhile_append)

lemma natToString_not_minus: "hd (natToString n) \<noteq> CHR ''-''"
proof -
  have "hd (natToString n) \<in> set (natToString n)"
    using natToString_nonempty by simp
  then have "isDigit (hd (natToString n))" using natToString_digits by blast
  then show ?thesis by (auto simp add: isDigit_def)
qed

lemma parseNumber_numberToString:
  assumes "afterValue r"
  shows "parseNumber (numberToString i @ r) = Some (i, r)"
proof (cases "i < 0")
  case True
  then have s: "numberToString i @ r = CHR ''-'' # natToString (nat (- i)) @ r"
    by (simp add: numberToString_def)
  show ?thesis
    unfolding s parseNumber_def
    using True assms natToString_leading [of "nat (- i)"]
    by (simp add: takeWhile_digits natToString_nonempty digitsValue_natToString
        afterValue_not_fraction Let_def)
next
  case False
  then have s: "numberToString i @ r = natToString (nat i) @ r"
    by (simp add: numberToString_def)
  obtain d ds where ds: "natToString (nat i) = d # ds"
    using natToString_nonempty [of "nat i"] by (cases "natToString (nat i)") auto
  with natToString_not_minus [of "nat i"] have d: "d \<noteq> CHR ''-''" by simp
  have neg: "(case natToString (nat i) @ r of [] \<Rightarrow> False | c # _ \<Rightarrow> c = CHR ''-'') = False"
    using ds d by simp
  show ?thesis
    unfolding s parseNumber_def neg
    using False assms natToString_leading [of "nat i"]
    by (simp add: takeWhile_digits natToString_nonempty digitsValue_natToString
        afterValue_not_fraction Let_def)
qed

subsection \<open>First characters\<close>

lemma numberToString_start: "\<exists>c cs. numberToString i = c # cs \<and> (c = CHR ''-'' \<or> isDigit c)"
proof (cases "i < 0")
  case True
  then show ?thesis by (simp add: numberToString_def)
next
  case False
  obtain d ds where ds: "natToString (nat i) = d # ds"
    using natToString_nonempty [of "nat i"] by (cases "natToString (nat i)") auto
  with natToString_digits [of "nat i"] have "isDigit d" by simp
  with False ds show ?thesis by (simp add: numberToString_def)
qed

lemma stringify_start: "\<exists>c cs. JSON_stringify v = c # cs \<and> valueStart c"
proof (cases v)
  case (JNum i)
  with numberToString_start [of i] show ?thesis by (auto simp add: valueStart_def)
qed (auto simp add: valueStart_def quoteString_def)

lemma valueStart_facts:
  "valueStart c \<Longrightarrow> \<not> isWhitespace c \<and> c \<noteq> CHR '']'' \<and> c \<noteq> CHR ''}'' \<and> c \<noteq> CHR '','' \<and> c \<noteq> CHR '':''"
  by (auto simp add: valueStart_def isWhitespace_def isDigit_def)

lemma skipWhitespace_Cons: "\<not> isWhitespace c \<Longrightarrow> skipWhitespace (c # cs) = c # cs"
  by (simp add: skipWhitespace_def)

lemma skipWhitespace_separator:
  "skipWhitespace (CHR '','' # r) = CHR '','' # r"
  "skipWhitespace (CHR '']'' # r) = CHR '']'' # r"
  "skipWhitespace (CHR ''}'' # r) = CHR ''}'' # r"
  "skipWhitespace (CHR '':'' # r) = CHR '':'' # r"
  "skipWhitespace (CHR 0x22 # r) = CHR 0x22 # r"
  by (simp_all add: skipWhitespace_def isWhitespace_def)

lemma afterValue_separator:
  "afterValue (CHR '','' # r)" "afterValue (CHR '']'' # r)" "afterValue (CHR ''}'' # r)" "afterValue []"
  by (simp_all add: afterValue_def)

subsection \<open>Elements and members\<close>

lemma parseElements_joined:
  assumes "\<And>v n r. v \<in> set vs \<Longrightarrow> fuelOf v \<le> n \<Longrightarrow> afterValue r \<Longrightarrow>
             parseValue n (JSON_stringify v @ r) = Some (plainValue v, r)"
    and "vs \<noteq> []"
    and "length vs + sum_list (map fuelOf vs) \<le> n"
  shows "parseElements n (joinComma (map JSON_stringify vs) @ CHR '']'' # r) = Some (map plainValue vs, r)"
  using assms
proof (induction vs arbitrary: n)
  case Nil
  then show ?case by simp
next
  case (Cons v ws)
  from Cons.prems(3) obtain m where n: "n = Suc m" by (cases n) auto
  show ?case
  proof (cases ws)
    case Nil
    have "fuelOf v \<le> m" using Cons.prems(3) n Nil by simp
    then have "parseValue m (JSON_stringify v @ CHR '']'' # r) = Some (plainValue v, CHR '']'' # r)"
      using Cons.prems(1) [of v m "CHR '']'' # r"] by (simp add: afterValue_separator)
    then show ?thesis
      using Nil n by (simp add: skipWhitespace_separator startsWith_def)
  next
    case (Cons w ws')
    have fv: "fuelOf v \<le> m" using Cons.prems(3) n by simp
    let ?rest = "joinComma (map JSON_stringify ws) @ CHR '']'' # r"
    have first: "parseValue m (JSON_stringify v @ CHR '','' # ?rest) = Some (plainValue v, CHR '','' # ?rest)"
      using Cons.prems(1) [of v m "CHR '','' # ?rest"] fv by (simp add: afterValue_separator)
    have "length ws + sum_list (map fuelOf ws) \<le> m" using Cons.prems(3) n by simp
    moreover have "ws \<noteq> []" using Cons by simp
    ultimately have rest: "parseElements m ?rest = Some (map plainValue ws, r)"
      using Cons.IH [of m] Cons.prems(1) by simp
    have shape: "joinComma (map JSON_stringify (v # ws)) @ CHR '']'' # r = JSON_stringify v @ CHR '','' # ?rest"
      using Cons by simp
    show ?thesis
      unfolding shape n
      by (simp add: first rest skipWhitespace_separator startsWith_def)
  qed
qed

lemma memberText_split: "(\<lambda>(k, v). quoteString k @ CHR '':'' # JSON_stringify v) = memberText"
  by (auto simp add: memberText_def fun_eq_iff)

lemma parseMembers_joined:
  assumes "\<And>p n r. p \<in> set props \<Longrightarrow> fuelOf (snd p) \<le> n \<Longrightarrow> afterValue r \<Longrightarrow>
             parseValue n (JSON_stringify (snd p) @ r) = Some (plainValue (snd p), r)"
    and "props \<noteq> []"
    and "length props + sum_list (map (\<lambda>p. fuelOf (snd p)) props) \<le> n"
  shows "parseMembers n (joinComma (map memberText props) @ CHR ''}'' # r) =
           Some (map (\<lambda>p. (fst p, plainValue (snd p))) props, r)"
  using assms
proof (induction props arbitrary: n)
  case Nil
  then show ?case by simp
next
  case (Cons p ps)
  from Cons.prems(3) obtain m where n: "n = Suc m" by (cases n) auto
  have fv: "fuelOf (snd p) \<le> m" using Cons.prems(3) n by simp
  have key: "parseChars (tl (quoteString (fst p) @ x)) = Some (fst p, x)" for x
    by (rule parseChars_quoteString)
  have start: "skipWhitespace (memberText p @ x) = CHR 0x22 # tl (quoteString (fst p) @ CHR '':'' # JSON_stringify (snd p) @ x)"
    for x
    by (simp add: memberText_def quoteString_def skipWhitespace_separator)
  show ?case
  proof (cases ps)
    case Nil
    have v: "parseValue m (JSON_stringify (snd p) @ CHR ''}'' # r) = Some (plainValue (snd p), CHR ''}'' # r)"
      using Cons.prems(1) [of p m "CHR ''}'' # r"] fv by (simp add: afterValue_separator)
    show ?thesis
      unfolding n using Nil
      by (simp add: start key v skipWhitespace_separator startsWith_def Let_def)
  next
    case (Cons q qs)
    let ?rest = "joinComma (map memberText ps) @ CHR ''}'' # r"
    have v: "parseValue m (JSON_stringify (snd p) @ CHR '','' # ?rest) = Some (plainValue (snd p), CHR '','' # ?rest)"
      using Cons.prems(1) [of p m "CHR '','' # ?rest"] fv by (simp add: afterValue_separator)
    have "length ps + sum_list (map (\<lambda>p. fuelOf (snd p)) ps) \<le> m" using Cons.prems(3) n by simp
    moreover have "ps \<noteq> []" using Cons by simp
    ultimately have rest: "parseMembers m ?rest = Some (map (\<lambda>p. (fst p, plainValue (snd p))) ps, r)"
      using Cons.IH [of m] Cons.prems(1) by simp
    have shape: "joinComma (map memberText (p # ps)) @ CHR ''}'' # r = memberText p @ CHR '','' # ?rest"
      using Cons by simp
    have start': "skipWhitespace (memberText p @ CHR '','' # ?rest) =
        CHR 0x22 # tl (quoteString (fst p) @ CHR '':'' # JSON_stringify (snd p) @ CHR '','' # ?rest)"
      by (rule start)
    show ?thesis
      unfolding shape n
      by (simp add: start' key v rest skipWhitespace_separator startsWith_def Let_def del: append_assoc)
  qed
qed

subsection \<open>Values\<close>

lemma objectOf_distinct_aux:
  "distinct (map fst (acc @ kvs)) \<Longrightarrow> foldl objectInsert acc kvs = acc @ kvs"
proof (induction kvs arbitrary: acc)
  case Nil
  then show ?case by simp
next
  case (Cons kv kvs)
  from Cons.prems have "fst kv \<notin> set (map fst acc)" by auto
  then have "objectInsert acc kv = acc @ [kv]" by (simp add: objectInsert_def)
  moreover from Cons.prems have "distinct (map fst ((acc @ [kv]) @ kvs))" by simp
  ultimately show ?case using Cons.IH [of "acc @ [kv]"] by simp
qed

lemma objectOf_distinct: "distinct (map fst kvs) \<Longrightarrow> objectOf kvs = kvs"
  using objectOf_distinct_aux [of "[]" kvs] by (simp add: objectOf_def)

lemma joinComma_start:
  "joinComma (s # ss) @ r = s @ (if ss = [] then r else CHR '','' # joinComma ss @ r)"
  by (cases ss) simp_all

lemma parse_literal:
  assumes "JSON_stringify v = c # cs" "valueStart c"
  shows "skipWhitespace (JSON_stringify v @ r) = JSON_stringify v @ r"
  using assms valueStart_facts [of c] by (simp add: skipWhitespace_Cons)

lemma parseValue_number:
  assumes "afterValue r"
  shows "parseValue (Suc m) (numberToString i @ r) = Some (JNum i, r)"
proof -
  obtain c cs where c: "numberToString i = c # cs" "c = CHR ''-'' \<or> isDigit c"
    using numberToString_start by blast
  then have ws: "skipWhitespace (numberToString i @ r) = numberToString i @ r"
    by (auto simp add: skipWhitespace_def isWhitespace_def isDigit_def)
  have no: "\<not> startsWith (numberToString i @ r) (CHR 0x22)" "\<not> startsWith (numberToString i @ r) (CHR ''['')"
    "\<not> startsWith (numberToString i @ r) (CHR ''{'')" "\<not> prefix ''null'' (numberToString i @ r)"
    "\<not> prefix ''true'' (numberToString i @ r)" "\<not> prefix ''false'' (numberToString i @ r)"
    using c by (auto simp add: startsWith_def isDigit_def)
  show ?thesis
    by (simp add: ws no parseNumber_numberToString [OF assms] Let_def)
qed

lemma parseValue_string:
  "parseValue (Suc m) (quoteString s @ r) = Some (JStr s, r)"
proof -
  have ws: "skipWhitespace (quoteString s @ r) = quoteString s @ r"
    by (simp add: quoteString_def skipWhitespace_separator)
  have st: "startsWith (quoteString s @ r) (CHR 0x22)"
    by (simp add: quoteString_def startsWith_def)
  show ?thesis
    by (simp add: ws st parseChars_quoteString Let_def)
qed

lemma parseValue_empty_object:
  "parseValue (Suc m) (''{}'' @ r) = Some (JObj [], r)"
  by (simp add: skipWhitespace_def isWhitespace_def startsWith_def Let_def)

lemma parseValue_empty_array:
  "parseValue (Suc m) (''[]'' @ r) = Some (JArr [], r)"
  by (simp add: skipWhitespace_def isWhitespace_def startsWith_def Let_def)

lemma parseValue_keywords:
  "parseValue (Suc m) (''null'' @ r) = Some (JNull, r)"
  "parseValue (Suc m) (''true'' @ r) = Some (JBool True, r)"
  "parseValue (Suc m) (''false'' @ r) = Some (JBool False, r)"
  by (simp_all add: skipWhitespace_def isWhitespace_def startsWith_def Let_def)

lemma parseValue_array:
  assumes "parseElements m (joinComma (map JSON_stringify vs) @ CHR '']'' # r) = Some (ws, r)"
    and "vs \<noteq> []"
  shows "parseValue (Suc m) (JSON_stringify (JArr vs) @ r) = Some (JArr ws, r)"
proof -
  obtain v vs' where vs: "vs = v # vs'" using assms(2) by (cases vs) auto
  obtain c cs where c: "JSON_stringify v = c # cs" "valueStart c"
    using stringify_start by blast
  let ?inner = "joinComma (map JSON_stringify vs) @ CHR '']'' # r"
  have inner: "\<exists>x. ?inner = c # x"
    using vs c by (simp add: joinComma_start)
  then obtain x where x: "?inner = c # x" by blast
  have nb: "\<not> startsWith (skipWhitespace ?inner) (CHR '']'')"
    using valueStart_facts [OF c(2)] by (simp add: x skipWhitespace_Cons startsWith_def)
  have whole: "JSON_stringify (JArr vs) @ r = CHR ''['' # ?inner" by simp
  show ?thesis
    unfolding whole
    using nb assms(1)
    by (simp add: skipWhitespace_def isWhitespace_def startsWith_def Let_def)
qed

lemma parseValue_object:
  assumes "parseMembers m (joinComma (map memberText props) @ CHR ''}'' # r) = Some (ws, r)"
    and "props \<noteq> []"
  shows "parseValue (Suc m) (JSON_stringify (JObj props) @ r) = Some (JObj (objectOf ws), r)"
proof -
  obtain p ps where ps: "props = p # ps" using assms(2) by (cases props) auto
  let ?inner = "joinComma (map memberText props) @ CHR ''}'' # r"
  have "\<exists>x. ?inner = CHR 0x22 # x"
    using ps by (simp add: joinComma_start memberText_def quoteString_def)
  then obtain x where x: "?inner = CHR 0x22 # x" by blast
  have nb: "\<not> startsWith (skipWhitespace ?inner) (CHR ''}'')"
    by (simp add: x skipWhitespace_separator startsWith_def)
  have whole: "JSON_stringify (JObj props) @ r = CHR ''{'' # ?inner"
    by (simp add: memberText_split)
  show ?thesis
    unfolding whole
    using nb assms(1)
    by (simp add: skipWhitespace_def isWhitespace_def startsWith_def Let_def)
qed

lemma plain_props:
  "map (\<lambda>p. (fst p, plainValue (snd p))) props = map (\<lambda>(k, v). (k, plainValue v)) props"
  by (simp add: case_prod_unfold)

lemma fuel_props:
  "map (\<lambda>p. fuelOf (snd p)) props = map (\<lambda>(k, v). fuelOf v) props"
  by (simp add: case_prod_unfold)

theorem parse_stringify:
  "distinctKeys v \<Longrightarrow> fuelOf v \<le> n \<Longrightarrow> afterValue r \<Longrightarrow>
   parseValue n (JSON_stringify v @ r) = Some (plainValue v, r)"
proof (induction v arbitrary: n r)
  case JNull
  then obtain m where "n = Suc m" by (cases n) auto
  then show ?case by (simp only: JSON_stringify.simps plainValue.simps parseValue_keywords)
next
  case (JBool b)
  then obtain m where "n = Suc m" by (cases n) auto
  then show ?case by (cases b) (simp_all only: JSON_stringify.simps plainValue.simps parseValue_keywords if_True if_False)
next
  case (JNum i)
  then obtain m where "n = Suc m" by (cases n) auto
  with JNum show ?case by (simp only: JSON_stringify.simps plainValue.simps parseValue_number)
next
  case (JStr s)
  then obtain m where "n = Suc m" by (cases n) auto
  then show ?case by (simp only: JSON_stringify.simps plainValue.simps parseValue_string)
next
  case (JArr vs)
  from JArr.prems(2) obtain m where n: "n = Suc m" by (cases n) auto
  show ?case
  proof (cases "vs = []")
    case True
    then show ?thesis using n parseValue_empty_array [of m r] by simp
  next
    case False
    have each: "\<And>v n r. v \<in> set vs \<Longrightarrow> fuelOf v \<le> n \<Longrightarrow> afterValue r \<Longrightarrow>
             parseValue n (JSON_stringify v @ r) = Some (plainValue v, r)"
      using JArr.IH JArr.prems(1) by simp
    have "length vs + sum_list (map fuelOf vs) \<le> m" using JArr.prems(2) n by simp
    with each False
    have "parseElements m (joinComma (map JSON_stringify vs) @ CHR '']'' # r) = Some (map plainValue vs, r)"
      by (rule parseElements_joined)
    from parseValue_array [OF this False] show ?thesis using n by simp
  qed
next
  case (JObj props)
  from JObj.prems(2) obtain m where n: "n = Suc m" by (cases n) auto
  show ?case
  proof (cases "props = []")
    case True
    then show ?thesis using n parseValue_empty_object [of m r] by simp
  next
    case False
    have each: "\<And>p n r. p \<in> set props \<Longrightarrow> fuelOf (snd p) \<le> n \<Longrightarrow> afterValue r \<Longrightarrow>
             parseValue n (JSON_stringify (snd p) @ r) = Some (plainValue (snd p), r)"
    proof -
      fix p n r
      assume p: "p \<in> set props" and f: "fuelOf (snd p) \<le> n" and a: "afterValue r"
      have "snd p \<in> Basic_BNFs.snds p" by (cases p) simp
      moreover have "distinctKeys (snd p)" using JObj.prems(1) p by simp
      ultimately show "parseValue n (JSON_stringify (snd p) @ r) = Some (plainValue (snd p), r)"
        using JObj.IH [OF p _ _ f a] by blast
    qed
    have "length props + sum_list (map (\<lambda>p. fuelOf (snd p)) props) \<le> m"
      using JObj.prems(2) n by (simp add: fuel_props)
    with each False
    have members: "parseMembers m (joinComma (map memberText props) @ CHR ''}'' # r) =
           Some (map (\<lambda>p. (fst p, plainValue (snd p))) props, r)"
      by (rule parseMembers_joined)
    have "distinct (map fst (map (\<lambda>p. (fst p, plainValue (snd p))) props))"
      using JObj.prems(1) by (simp add: comp_def)
    then have "objectOf (map (\<lambda>p. (fst p, plainValue (snd p))) props) =
        map (\<lambda>p. (fst p, plainValue (snd p))) props"
      by (rule objectOf_distinct)
    with parseValue_object [OF members False] show ?thesis
      using n by (simp add: plain_props)
  qed
next
  case (JResponse st b)
  then obtain m where "n = Suc m" by (cases n) auto
  then show ?case using parseValue_empty_object [of m r] by simp
qed

lemma length_joinComma: "length ss + sum_list (map length ss) \<le> Suc (length (joinComma ss))"
  by (induction ss rule: joinComma.induct) simp_all

lemma stringify_nonempty: "JSON_stringify v \<noteq> []"
  using stringify_start [of v] by auto

lemma sum_list_le:
  "(\<And>x. x \<in> set xs \<Longrightarrow> f x \<le> g x) \<Longrightarrow> sum_list (map f xs) \<le> sum_list (map g xs)"
  for f g :: "'a \<Rightarrow> nat"
  by (induction xs) (simp_all add: add_mono)

lemma fuelOf_length: "fuelOf v \<le> length (JSON_stringify v)"
proof (induction v)
  case (JArr vs)
  have "sum_list (map fuelOf vs) \<le> sum_list (map (\<lambda>v. length (JSON_stringify v)) vs)"
    using JArr.IH by (rule sum_list_le)
  moreover have "length (map JSON_stringify vs) + sum_list (map length (map JSON_stringify vs))
      \<le> Suc (length (joinComma (map JSON_stringify vs)))"
    by (rule length_joinComma)
  ultimately show ?case by (simp add: comp_def)
next
  case (JObj props)
  have "fuelOf (snd p) \<le> length (memberText p)" if "p \<in> set props" for p
  proof -
    have "snd p \<in> Basic_BNFs.snds p" by (cases p) simp
    with JObj.IH [OF that] have "fuelOf (snd p) \<le> length (JSON_stringify (snd p))" by blast
    then show ?thesis by (simp add: memberText_def)
  qed
  then have "sum_list (map (\<lambda>p. fuelOf (snd p)) props) \<le> sum_list (map (\<lambda>p. length (memberText p)) props)"
    by (rule sum_list_le)
  moreover have "length (map memberText props) + sum_list (map length (map memberText props))
      \<le> Suc (length (joinComma (map memberText props)))"
    by (rule length_joinComma)
  ultimately show ?case by (simp add: comp_def memberText_split fuel_props [symmetric])
next
  case (JNum i)
  show ?case using stringify_nonempty [of "JNum i"] by (simp add: Suc_le_eq)
next
  case (JStr s)
  show ?case by (simp add: quoteString_def)
qed simp_all

theorem JSON_parse_stringify:
  assumes "distinctKeys v"
  shows "JSON_parse (JSON_stringify v) = Inr (plainValue v)"
proof -
  have "fuelOf v \<le> Suc (length (JSON_stringify v))"
    using fuelOf_length [of v] by simp
  with assms have "parseValue (Suc (length (JSON_stringify v))) (JSON_stringify v @ []) = Some (plainValue v, [])"
    by (rule parse_stringify) (simp add: afterValue_def)
  then show ?thesis by (simp add: JSON_parse_def skipWhitespace_def)
qed

lemma stringify_plainValue: "JSON_stringify (plainValue v) = JSON_stringify v"
proof (induction v)
  case (JArr vs)
  then have eq: "map (\<lambda>v. JSON_stringify (plainValue v)) vs = map JSON_stringify vs" by simp
  show ?case by (simp only: plainValue.simps JSON_stringify.simps map_map comp_def eq)
next
  case (JObj props)
  have "memberText (fst p, plainValue (snd p)) = memberText p" if "p \<in> set props" for p
  proof -
    have "snd p \<in> Basic_BNFs.snds p" by (cases p) simp
    with JObj [OF that] show ?thesis by (simp add: memberText_def)
  qed
  then have eq: "map (\<lambda>p. memberText (fst p, plainValue (snd p))) props = map memberText props"
    by simp
  have "map (\<lambda>(k, v). quoteString k @ CHR '':'' # JSON_stringify v) (map (\<lambda>(k, v). (k, plainValue v)) props)
      = map (\<lambda>p. memberText (fst p, plainValue (snd p))) props"
    by (simp add: memberText_def case_prod_unfold)
  then show ?case
    by (simp only: plainValue.simps JSON_stringify.simps eq memberText_split)
qed simp_all

lemma canonical_stringify: "distinctKeys v \<Longrightarrow> canonicalText (JSON_stringify v)"
  by (simp add: canonicalText_def JSON_parse_stringify stringify_plainValue)

section \<open>Properties of the route handler\<close>

lemma getOrSetCache_hit:
  "cache_get c now key = Some s \<Longrightarrow> s \<noteq> [] \<Longrightarrow>
   getOrSetCache key fetch c now = (JSON_parse s, c, [])"
  by (simp add: getOrSetCache_def truthy_string_def)

lemma getOrSetCache_miss:
  "cacheMiss c now key \<Longrightarrow>
   getOrSetCache key fetch c now =
     (case fetch () of
        (Inl e, calls) \<Rightarrow> (Inl e, c, calls)
      | (Inr freshData, calls) \<Rightarrow>
          (Inr freshData, cache_set c now key (JSON_stringify freshData) (5 * 60 * 60), calls))"
  by (auto simp add: getOrSetCache_def fetchAndStore_def cacheMiss_def truthy_string_def
      split: option.splits)

lemma cache_hit_or_miss:
  "cacheMiss c now key \<or> (\<exists>s. cache_get c now key = Some s \<and> s \<noteq> [])"
  by (auto simp add: cacheMiss_def split: option.splits)

lemma GET_hit:
  "cache_get c now (''episodesData:'' @ ident) = Some s \<Longrightarrow> s \<noteq> [] \<Longrightarrow>
   GET convertToEpisode oc c now ident =
     (case JSON_parse s of
        Inr v \<Rightarrow> (\<lparr>rs_status = 200, rs_body = v\<rparr>, c, [])
      | Inl e \<Rightarrow> (\<lparr>rs_status = 500, rs_body = internalServerError\<rparr>, c, []))"
  by (simp add: GET_def getOrSetCache_hit split: sum.splits)

lemma GET_miss:
  "cacheMiss c now (''episodesData:'' @ ident) \<Longrightarrow>
   GET convertToEpisode oc c now ident =
     (case fetchData convertToEpisode oc of
        (Inl e, calls) \<Rightarrow> (\<lparr>rs_status = 500, rs_body = internalServerError\<rparr>, c, calls)
      | (Inr freshData, calls) \<Rightarrow>
          (\<lparr>rs_status = 200, rs_body = freshData\<rparr>,
           cache_set c now (''episodesData:'' @ ident) (JSON_stringify freshData) (5 * 60 * 60), calls))"
  by (simp add: GET_def getOrSetCache_miss split: sum.splits prod.splits)

lemma GET_calls_miss:
  assumes "GET convertToEpisode oc c now ident = (response, c', calls)" and "calls \<noteq> []"
  shows "cacheMiss c now (''episodesData:'' @ ident)"
proof (rule ccontr)
  assume "\<not> cacheMiss c now (''episodesData:'' @ ident)"
  then obtain s where "cache_get c now (''episodesData:'' @ ident) = Some s" "s \<noteq> []"
    using cache_hit_or_miss by blast
  then have "calls = []"
    using assms(1) by (auto simp add: GET_hit split: sum.splits)
  with assms(2) show False by simp
qed

lemma fetchData_first:
  "oc_contentMetadata oc = Some imgs \<Longrightarrow> oc_episodesMetadata oc = Some md \<Longrightarrow> oc_info oc = Some info \<Longrightarrow>
   fetchData convertToEpisode oc =
     (Inr (fst (providerFlow convertToEpisode oc md info (Some imgs))),
      [ContentMetadata, EpisodesMetadata, Info] @ snd (providerFlow convertToEpisode oc md info (Some imgs)))"
  by (simp add: fetchData_def split: prod.splits)

lemma fetchData_retry:
  "oc_contentMetadata oc = None \<or> oc_episodesMetadata oc = None \<or> oc_info oc = None \<Longrightarrow>
   oc_episodesMetadataRetry oc = Some md \<Longrightarrow> oc_infoRetry oc = Some info \<Longrightarrow>
   fetchData convertToEpisode oc =
     (Inr (fst (providerFlow convertToEpisode oc md info None)),
      [ContentMetadata, EpisodesMetadata, Info, EpisodesMetadata, Info]
        @ snd (providerFlow convertToEpisode oc md info None))"
  by (auto simp add: fetchData_def split: prod.splits option.splits)

lemma fetchData_fail:
  "oc_contentMetadata oc = None \<or> oc_episodesMetadata oc = None \<or> oc_info oc = None \<Longrightarrow>
   oc_episodesMetadataRetry oc = None \<or> oc_infoRetry oc = None \<Longrightarrow>
   fetchData convertToEpisode oc =
     (Inl NetworkError, [ContentMetadata, EpisodesMetadata, Info, EpisodesMetadata, Info])"
  by (auto simp add: fetchData_def split: prod.splits option.splits)

lemma providerFlow_both_fail:
  "oc_anifyEpisodes oc = None \<Longrightarrow> oc_consumetEpisodes oc = None \<Longrightarrow>
   providerFlow convertToEpisode oc md info imgs =
     (JResponse 500 internalServerError, [AnifyEpisodes, ConsumetEpisodes])"
  by (simp add: providerFlow_def)

lemma providerFlow_fallback:
  "oc_anifyEpisodes oc = None \<Longrightarrow> oc_consumetEpisodes oc = Some ces \<Longrightarrow>
   providerFlow convertToEpisode oc md info imgs =
     (JArr [bundleObject (findEpisodeData (map convertToEpisode ces) md info imgs) ''anizone''],
      [AnifyEpisodes, ConsumetEpisodes])"
  by (simp add: providerFlow_def)

lemma providerFlow_primary:
  "oc_anifyEpisodes oc = Some ar \<Longrightarrow>
   providerFlow convertToEpisode oc md info imgs =
     (JArr (map (\<lambda>p. bundleObject (findEpisodeData (pr_episodes p) md info imgs)
                       (if pr_providerId p = ''zoro'' then ''anirise'' else ''anizone''))
              (ed_data (er_episodes ar))),
      [AnifyEpisodes])"
  by (simp add: providerFlow_def)

lemma fetchData_cases:
  obtains (first) imgs md info where
      "oc_contentMetadata oc = Some imgs" "oc_episodesMetadata oc = Some md" "oc_info oc = Some info"
  | (retry) md info where
      "oc_contentMetadata oc = None \<or> oc_episodesMetadata oc = None \<or> oc_info oc = None"
      "oc_episodesMetadataRetry oc = Some md" "oc_infoRetry oc = Some info"
  | (fail)
      "oc_contentMetadata oc = None \<or> oc_episodesMetadata oc = None \<or> oc_info oc = None"
      "oc_episodesMetadataRetry oc = None \<or> oc_infoRetry oc = None"
  by (cases "oc_contentMetadata oc"; cases "oc_episodesMetadata oc"; cases "oc_info oc";
      cases "oc_episodesMetadataRetry oc"; cases "oc_infoRetry oc") auto

theorem GET_both_providers_fail:
  assumes run: "GET convertToEpisode oc c now ident = (response, c', calls)"
    and called: "AnifyEpisodes \<in> set calls"
    and primary: "oc_anifyEpisodes oc = None"
    and fallback: "oc_consumetEpisodes oc = None"
  shows "rs_status response = 200 \<and> rs_body response = JResponse 500 internalServerError
     \<and> responseText response = ''{}''
     \<and> cache_get c' now (''episodesData:'' @ ident) = Some ''{}''"
proof -
  let ?key = "''episodesData:'' @ ident"
  from called have "calls \<noteq> []" by auto
  with run have miss: "cacheMiss c now ?key" by (rule GET_calls_miss)
  show ?thesis
  proof (cases oc rule: fetchData_cases)
    case (first imgs md info)
    then show ?thesis
      using run miss primary fallback
      by (auto simp add: GET_miss fetchData_first providerFlow_both_fail responseText_def
          cache_get_def cache_set_def)
  next
    case (retry md info)
    then show ?thesis
      using run miss primary fallback
      by (auto simp add: GET_miss fetchData_retry providerFlow_both_fail responseText_def
          cache_get_def cache_set_def)
  next
    case fail
    then show ?thesis
      using run miss called by (auto simp add: GET_miss fetchData_fail)
  qed
qed

lemma emptyCache_miss: "cacheMiss emptyCache now key"
  by (simp add: cacheMiss_def cache_get_def emptyCache_def)

text \<open>
  Claim C1.  When the primary and the fallback provider both fail, the specification
  promises a response of status 500 with the generic body.  The handler builds that
  response inside the data closure and returns it as the closure's data, so
  \<open>getOrSetCache\<close> stores its text \<open>{}\<close> and \<open>GET\<close> wraps it in a fresh response of status
  200 (lemma \<open>GET_both_providers_fail\<close>, for every such request).  The run below is one
  such request on an empty cache.
\<close>

theorem GET_both_fail_sample:
  "GET sampleConvert (sampleOutcomes\<lparr>oc_consumetEpisodes := None\<rparr>) emptyCache 0 ''21'' =
     (\<lparr>rs_status = 200, rs_body = JResponse 500 internalServerError\<rparr>,
      cache_set emptyCache 0 ''episodesData:21'' ''{}'' 18000,
      [ContentMetadata, EpisodesMetadata, Info, AnifyEpisodes, ConsumetEpisodes])
   \<and> responseText (fst (GET sampleConvert (sampleOutcomes\<lparr>oc_consumetEpisodes := None\<rparr>) emptyCache 0 ''21''))
       = ''{}''"
  by (simp add: GET_miss emptyCache_miss fetchData_def providerFlow_def sampleOutcomes_def
      responseText_def)

lemma bundleObject_wire:
  "bundleObject episodes providerId =
     JObj [(''episodes'',
            JArr (map (\<lambda>r. JObj [(''id'', JStr (re_id r)),
                                 (''img'', case re_img r of None \<Rightarrow> JNull | Some s \<Rightarrow> JStr s),
                                 (''title'', JStr (re_title r)),
                                 (''description'', JStr (re_description r)),
                                 (''number'', JNum (re_number r))])
                    episodes)),
           (''providerId'', JStr providerId)]"
  by (simp add: bundleObject_def episodeObject_def nullable_def)

text \<open>
  Claim C2, as amended.  In every request in which the primary provider is asked and
  rejects and the fallback provider answers, the response has status 200 and holds a
  single bundle whose \<open>providerId\<close> is \<open>anizone\<close>.  Its episodes are not the converted
  episodes themselves but what \<open>findEpisodeData\<close> makes of them against the auxiliary data
  of the run (with the images of the first attempt, or without images after the retry):
  one object \<open>{id, img, title, description, number}\<close> per fallback episode, in order, with
  the converted episode's \<open>id\<close> and \<open>number\<close>.
\<close>

theorem GET_fallback_bundle:
  assumes run: "GET convertToEpisode oc c now ident = (response, c', calls)"
    and called: "AnifyEpisodes \<in> set calls"
    and primary: "oc_anifyEpisodes oc = None"
    and fallback: "oc_consumetEpisodes oc = Some consumetEpisodes"
  shows "ConsumetEpisodes \<in> set calls \<and> rs_status response = 200
     \<and> (\<exists>episodeMetadata information episodeImages.
          (episodeImages \<noteq> None \<and> oc_contentMetadata oc = episodeImages
                \<and> oc_episodesMetadata oc = Some episodeMetadata \<and> oc_info oc = Some information
              \<or> episodeImages = None
                \<and> (oc_contentMetadata oc = None \<or> oc_episodesMetadata oc = None \<or> oc_info oc = None)
                \<and> oc_episodesMetadataRetry oc = Some episodeMetadata
                \<and> oc_infoRetry oc = Some information)
          \<and> rs_body response =
              JArr [JObj [(''episodes'',
                           JArr (map (\<lambda>r. JObj [(''id'', JStr (re_id r)),
                                                (''img'', case re_img r of None \<Rightarrow> JNull | Some s \<Rightarrow> JStr s),
                                                (''title'', JStr (re_title r)),
                                                (''description'', JStr (re_description r)),
                                                (''number'', JNum (re_number r))])
                                   (findEpisodeData (map convertToEpisode consumetEpisodes)
                                      episodeMetadata information episodeImages))),
                          (''providerId'', JStr ''anizone'')]]
          \<and> map re_id (findEpisodeData (map convertToEpisode consumetEpisodes)
                          episodeMetadata information episodeImages) =
                map (\<lambda>x. ep_id (convertToEpisode x)) consumetEpisodes
          \<and> map re_number (findEpisodeData (map convertToEpisode consumetEpisodes)
                              episodeMetadata information episodeImages) =
                map (\<lambda>x. ep_number (convertToEpisode x)) consumetEpisodes)"
proof -
  let ?key = "''episodesData:'' @ ident"
  let ?enc = "\<lambda>r. JObj [(''id'', JStr (re_id r)),
                        (''img'', case re_img r of None \<Rightarrow> JNull | Some s \<Rightarrow> JStr s),
                        (''title'', JStr (re_title r)),
                        (''description'', JStr (re_description r)),
                        (''number'', JNum (re_number r))]"
  from called have "calls \<noteq> []" by auto
  with run have miss: "cacheMiss c now ?key" by (rule GET_calls_miss)
  have ids: "map re_id (findEpisodeData (map convertToEpisode consumetEpisodes) md info imgs) =
                map (\<lambda>x. ep_id (convertToEpisode x)) consumetEpisodes
      \<and> map re_number (findEpisodeData (map convertToEpisode consumetEpisodes) md info imgs) =
                map (\<lambda>x. ep_number (convertToEpisode x)) consumetEpisodes" for md info imgs
    by (simp add: findEpisodeData_def episodeEntry_id_number comp_def)
  show ?thesis
  proof (cases oc rule: fetchData_cases)
    case (first imgs md info)
    with run miss primary fallback
    have "calls = [ContentMetadata, EpisodesMetadata, Info, AnifyEpisodes, ConsumetEpisodes]"
      and "rs_status response = 200"
      and "rs_body response =
             JArr [JObj [(''episodes'',
                          JArr (map ?enc (findEpisodeData (map convertToEpisode consumetEpisodes) md info
                                            (Some imgs)))),
                         (''providerId'', JStr ''anizone'')]]"
      by (auto simp add: GET_miss fetchData_first providerFlow_fallback bundleObject_wire)
    with first ids [of md info "Some imgs"] show ?thesis by auto
  next
    case (retry md info)
    with run miss primary fallback
    have "calls = [ContentMetadata, EpisodesMetadata, Info, EpisodesMetadata, Info, AnifyEpisodes,
                   ConsumetEpisodes]"
      and "rs_status response = 200"
      and "rs_body response =
             JArr [JObj [(''episodes'',
                          JArr (map ?enc (findEpisodeData (map convertToEpisode consumetEpisodes) md info None))),
                         (''providerId'', JStr ''anizone'')]]"
      by (auto simp add: GET_miss fetchData_retry providerFlow_fallback bundleObject_wire)
    with retry ids [of md info None] show ?thesis by auto
  next
    case fail
    then show ?thesis
      using run miss called by (auto simp add: GET_miss fetchData_fail)
  qed
qed

lemma sample_fallback_run:
  "GET sampleConvert sampleOutcomes emptyCache 0 ''21'' =
     (\<lparr>rs_status = 200,
       rs_body = JArr [bundleObject
                         (findEpisodeData (map sampleConvert [7]) sampleMetadata sampleInformation
                            (Some sampleImages))
                         ''anizone'']\<rparr>,
      cache_set emptyCache 0 ''episodesData:21''
        (JSON_stringify
           (JArr [bundleObject
                    (findEpisodeData (map sampleConvert [7]) sampleMetadata sampleInformation
                       (Some sampleImages))
                    ''anizone'']))
        18000,
      [ContentMetadata, EpisodesMetadata, Info, AnifyEpisodes, ConsumetEpisodes])"
  by (simp add: GET_miss emptyCache_miss fetchData_def providerFlow_def sampleOutcomes_def)

lemma metadata_fallback_episodes:
  "findEpisodeData [sampleConvert 7] sampleMetadataEntries sampleInformation (Some sampleImages) =
     [\<lparr>re_id = ''c-7'', re_img = Some ''thumb7.png'', re_title = ''Seventh'',
       re_description = ''7th Episode of Shou'', re_number = 7\<rparr>]"
  by code_simp

lemma metadata_fallback_run:
  "fst (GET sampleConvert metadataOutcomes emptyCache 0 ''21'') =
     \<lparr>rs_status = 200,
      rs_body =
        JArr [JObj [(''episodes'',
                     JArr [JObj [(''id'', JStr ''c-7''), (''img'', JStr ''thumb7.png''),
                                 (''title'', JStr ''Seventh''),
                                 (''description'', JStr ''7th Episode of Shou''),
                                 (''number'', JNum 7)]]),
                    (''providerId'', JStr ''anizone'')]]\<rparr>"
  "snd (snd (GET sampleConvert metadataOutcomes emptyCache 0 ''21'')) =
     [ContentMetadata, EpisodesMetadata, Info, AnifyEpisodes, ConsumetEpisodes]"
  by (simp_all add: GET_miss emptyCache_miss fetchData_def providerFlow_def sampleOutcomes_def
      metadataOutcomes_def metadata_fallback_episodes bundleObject_wire)

theorem GET_fallback_bundle_witness:
  "AnifyEpisodes \<in> set (snd (snd (GET sampleConvert metadataOutcomes emptyCache 0 ''21'')))
   \<and> oc_anifyEpisodes metadataOutcomes = None
   \<and> oc_consumetEpisodes metadataOutcomes = Some [7]
   \<and> ConsumetEpisodes \<in> set (snd (snd (GET sampleConvert metadataOutcomes emptyCache 0 ''21'')))
   \<and> rs_status (fst (GET sampleConvert metadataOutcomes emptyCache 0 ''21'')) = 200
   \<and> rs_body (fst (GET sampleConvert metadataOutcomes emptyCache 0 ''21'')) =
        JArr [JObj [(''episodes'',
                     JArr [JObj [(''id'', JStr ''c-7''), (''img'', JStr ''thumb7.png''),
                                 (''title'', JStr ''Seventh''),
                                 (''description'', JStr ''7th Episode of Shou''),
                                 (''number'', JNum 7)]]),
                    (''providerId'', JStr ''anizone'')]]"
proof -
  let ?run = "GET sampleConvert metadataOutcomes emptyCache 0 ''21''"
  have run: "?run = (fst ?run, fst (snd ?run), snd (snd ?run))" by simp
  have called: "AnifyEpisodes \<in> set (snd (snd ?run))"
    by (simp add: metadata_fallback_run)
  have out: "oc_anifyEpisodes metadataOutcomes = None" "oc_consumetEpisodes metadataOutcomes = Some [7]"
    by (simp_all add: metadataOutcomes_def sampleOutcomes_def)
  from GET_fallback_bundle [OF run called out]
  show ?thesis
    by (simp add: metadata_fallback_run out)
qed

text \<open>
  The claim as first stated fails on the same run: the converted episode has the title
  \<open>EP1\<close>, the image \<open>raw.png\<close> and the nine properties of the \<open>Episode\<close> shape, while the
  episode of the response has the metadata's title and thumbnail and five properties.
\<close>

theorem GET_fallback_not_converted:
  "AnifyEpisodes \<in> set (snd (snd (GET sampleConvert metadataOutcomes emptyCache 0 ''21'')))
   \<and> oc_anifyEpisodes metadataOutcomes = None
   \<and> oc_consumetEpisodes metadataOutcomes = Some [7]
   \<and> map canonicalEpisodeObject (map sampleConvert [7]) =
        [JObj [(''id'', JStr ''c-7''), (''img'', JStr ''raw.png''), (''title'', JStr ''EP1''),
               (''hasDub'', JBool False), (''number'', JNum 7), (''rating'', JNull),
               (''isFiller'', JBool False), (''updatedAt'', JNum 0), (''description'', JNull)]]
   \<and> rs_body (fst (GET sampleConvert metadataOutcomes emptyCache 0 ''21'')) \<noteq>
        JArr [JObj [(''episodes'', JArr (map canonicalEpisodeObject (map sampleConvert [7]))),
                    (''providerId'', JStr ''anizone'')]]
   \<and> rs_body (fst (GET sampleConvert metadataOutcomes emptyCache 0 ''21'')) \<noteq>
        JArr [JObj [(''episodes'',
                     JArr [JObj [(''id'', JStr ''c-7''), (''img'', JStr ''raw.png''),
                                 (''title'', JStr ''EP1''), (''description'', JNull),
                                 (''number'', JNum 7)]]),
                    (''providerId'', JStr ''anizone'')]]"
proof -
  have conv: "sampleConvert 7 =
      \<lparr>ep_id = ''c-7'', ep_img = Some ''raw.png'', ep_title = ''EP1'', ep_hasDub = False,
       ep_number = 7, ep_rating = None, ep_isFiller = False, ep_updatedAt = 0, ep_description = None\<rparr>"
    by code_simp
  have out: "oc_anifyEpisodes metadataOutcomes = None" "oc_consumetEpisodes metadataOutcomes = Some [7]"
    by (simp_all add: metadataOutcomes_def sampleOutcomes_def)
  show ?thesis
    by (simp add: metadata_fallback_run out conv canonicalEpisodeObject_def)
qed

lemma foundImage_absent: "foundImage None episode = None"
  by (simp add: foundImage_def imageProvider_def opt_chain_def)

lemma nullish_or_None:
  "nullish_or None b = b" "nullish_or a None = a" "opt_chain None f = None"
  by (simp_all add: nullish_or_def opt_chain_def split: option.splits)

lemma episodeEntry_without_images:
  "episodeEntry metadata information None episode = episodeEntryCatch metadata information episode"
  by (simp add: episodeEntry_def episodeEntryCatch_def foundImage_absent nullish_or_None Let_def)

lemma findEpisodeData_without_images:
  "findEpisodeData episodes metadata information None = map (episodeEntryCatch metadata information) episodes"
  by (simp add: findEpisodeData_def episodeEntry_without_images)

lemma episodeEntryCatch_img:
  "re_img (episodeEntryCatch metadata information e) =
     firstNonNull
       [Option.bind (List.find (\<lambda>meta. em_number meta = ep_number e) (ad_metadatas metadata)) em_thumbnail,
        in_coverImage information, ep_img e]"
  by (simp add: episodeEntryCatch_def Let_def nullish_chain3 opt_chain_bind foundMetadata_find
      del: firstNonNull.simps)

lemma episodeEntryCatch_title:
  "Some (re_title (episodeEntryCatch metadata information e)) =
     (if ep_title e \<noteq> [] \<and> \<not> prefix ''EP'' (ep_title e) then Some (ep_title e)
      else firstNonNull
             [Option.bind (List.find (\<lambda>meta. em_number meta = ep_number e) (ad_metadatas metadata)) em_title,
              Some (''Episode '' @ numberToString (ep_number e))])"
  by (simp add: episodeEntryCatch_def Let_def truthy_string_def nullish_else_chain2 opt_chain_bind
      foundMetadata_find del: firstNonNull.simps)

lemma animeTitle_firstNonNull:
  "animeTitle information =
     (case firstNonNull [it_english (in_title information), it_romaji (in_title information),
                         it_native (in_title information)] of
        None \<Rightarrow> ''null'' | Some t \<Rightarrow> t)"
  by (simp add: animeTitle_def templateString_def nullish_chain3 del: firstNonNull.simps)

lemma episodeEntryCatch_description:
  "Some (re_description (episodeEntryCatch metadata information e)) =
     firstNonNull
       [ep_description e,
        Some (ordinal (ep_number e) @ '' Episode of '' @
              (case firstNonNull [it_english (in_title information), it_romaji (in_title information),
                                  it_native (in_title information)] of
                 None \<Rightarrow> ''null'' | Some t \<Rightarrow> t))]"
  by (simp add: episodeEntryCatch_def Let_def nullish_else_chain2 animeTitle_firstNonNull
      del: firstNonNull.simps)

lemma resolvedWithoutImages_unique:
  assumes "resolvedWithoutImages metadata information e r"
    and "resolvedWithoutImages metadata information e r'"
  shows "r = r'"
proof -
  have "re_id r = re_id r'" "re_number r = re_number r'" "re_img r = re_img r'"
    using assms unfolding resolvedWithoutImages_def by simp_all
  moreover have "Some (re_title r) = Some (re_title r')"
    using assms unfolding resolvedWithoutImages_def by metis
  moreover have "Some (re_description r) = Some (re_description r')"
    using assms unfolding resolvedWithoutImages_def by metis
  ultimately show ?thesis by simp
qed

lemma episodeEntryCatch_resolved:
  "resolvedWithoutImages metadata information e (episodeEntryCatch metadata information e)"
  unfolding resolvedWithoutImages_def
  using episodeEntryCatch_img [of metadata information e]
    episodeEntryCatch_title [of metadata information e]
    episodeEntryCatch_description [of metadata information e]
  by (simp add: episodeEntryCatch_def Let_def del: firstNonNull.simps)

text \<open>
  Claim C8.  In every request whose auxiliary requests are issued and one of them
  rejects, the handler asks again for the metadata and the information and not for the
  images.  When these answer, the response holds the bundles of the primary provider,
  or the single \<open>anizone\<close> bundle of the fallback provider, with the episodes resolved
  without an image source: every episode follows the chains without the image lookup.
\<close>

theorem GET_retry_without_images:
  assumes run: "GET convertToEpisode oc c now ident = (response, c', calls)"
    and issued: "ContentMetadata \<in> set calls"
    and aux: "oc_contentMetadata oc = None \<or> oc_episodesMetadata oc = None \<or> oc_info oc = None"
  shows "take 5 calls = [ContentMetadata, EpisodesMetadata, Info, EpisodesMetadata, Info]
     \<and> ContentMetadata \<notin> set (drop 1 calls)
     \<and> (\<forall>episodeMetadata information.
          oc_episodesMetadataRetry oc = Some episodeMetadata \<and> oc_infoRetry oc = Some information \<longrightarrow>
          (\<forall>anifyEpisodes. oc_anifyEpisodes oc = Some anifyEpisodes \<longrightarrow>
               rs_body response =
                 JArr (map (\<lambda>p. JObj [(''episodes'',
                                       JArr (map (\<lambda>r. JObj [(''id'', JStr (re_id r)),
                                                            (''img'', case re_img r of None \<Rightarrow> JNull
                                                                       | Some s \<Rightarrow> JStr s),
                                                            (''title'', JStr (re_title r)),
                                                            (''description'', JStr (re_description r)),
                                                            (''number'', JNum (re_number r))])
                                               (findEpisodeData (pr_episodes p) episodeMetadata
                                                  information None))),
                                      (''providerId'',
                                       JStr (if pr_providerId p = ''zoro'' then ''anirise''
                                             else ''anizone''))])
                         (ed_data (er_episodes anifyEpisodes))))
          \<and> (\<forall>consumetEpisodes.
               oc_anifyEpisodes oc = None \<and> oc_consumetEpisodes oc = Some consumetEpisodes \<longrightarrow>
               rs_body response =
                 JArr [JObj [(''episodes'',
                              JArr (map (\<lambda>r. JObj [(''id'', JStr (re_id r)),
                                                   (''img'', case re_img r of None \<Rightarrow> JNull
                                                              | Some s \<Rightarrow> JStr s),
                                                   (''title'', JStr (re_title r)),
                                                   (''description'', JStr (re_description r)),
                                                   (''number'', JNum (re_number r))])
                                      (findEpisodeData (map convertToEpisode consumetEpisodes)
                                         episodeMetadata information None))),
                             (''providerId'', JStr ''anizone'')]])
          \<and> (\<forall>episodes.
               length (findEpisodeData episodes episodeMetadata information None) = length episodes
               \<and> (\<forall>i < length episodes.
                     resolvedWithoutImages episodeMetadata information (episodes ! i)
                       (findEpisodeData episodes episodeMetadata information None ! i))))"
proof -
  let ?key = "''episodesData:'' @ ident"
  let ?enc = "\<lambda>r. JObj [(''id'', JStr (re_id r)),
                        (''img'', case re_img r of None \<Rightarrow> JNull | Some s \<Rightarrow> JStr s),
                        (''title'', JStr (re_title r)),
                        (''description'', JStr (re_description r)),
                        (''number'', JNum (re_number r))]"
  from issued have "calls \<noteq> []" by auto
  with run have miss: "cacheMiss c now ?key" by (rule GET_calls_miss)
  have flow_calls: "ContentMetadata \<notin> set (snd (providerFlow convertToEpisode oc md info None))"
    for md info
    by (cases "oc_anifyEpisodes oc"; cases "oc_consumetEpisodes oc") (simp_all add: providerFlow_def)
  have calls: "take 5 calls = [ContentMetadata, EpisodesMetadata, Info, EpisodesMetadata, Info]
     \<and> ContentMetadata \<notin> set (drop 1 calls)"
  proof (cases oc rule: fetchData_cases)
    case (first imgs md info)
    with aux show ?thesis by auto
  next
    case (retry md info)
    with run miss flow_calls [of md info] show ?thesis
      by (auto simp add: GET_miss fetchData_retry)
  next
    case fail
    with run miss show ?thesis
      by (auto simp add: GET_miss fetchData_fail)
  qed
  have rest: "(\<forall>anifyEpisodes. oc_anifyEpisodes oc = Some anifyEpisodes \<longrightarrow>
               rs_body response =
                 JArr (map (\<lambda>p. JObj [(''episodes'',
                                       JArr (map ?enc (findEpisodeData (pr_episodes p) md info None))),
                                      (''providerId'',
                                       JStr (if pr_providerId p = ''zoro'' then ''anirise''
                                             else ''anizone''))])
                         (ed_data (er_episodes anifyEpisodes))))
          \<and> (\<forall>consumetEpisodes.
               oc_anifyEpisodes oc = None \<and> oc_consumetEpisodes oc = Some consumetEpisodes \<longrightarrow>
               rs_body response =
                 JArr [JObj [(''episodes'',
                              JArr (map ?enc (findEpisodeData (map convertToEpisode consumetEpisodes)
                                                md info None))),
                             (''providerId'', JStr ''anizone'')]])
          \<and> (\<forall>episodes.
               length (findEpisodeData episodes md info None) = length episodes
               \<and> (\<forall>i < length episodes.
                     resolvedWithoutImages md info (episodes ! i)
                       (findEpisodeData episodes md info None ! i)))"
    if md: "oc_episodesMetadataRetry oc = Some md" and info: "oc_infoRetry oc = Some info" for md info
  proof -
    from run miss have body: "rs_body response = fst (providerFlow convertToEpisode oc md info None)"
      by (auto simp add: GET_miss fetchData_retry [OF aux md info])
    have c3: "\<forall>anifyEpisodes. oc_anifyEpisodes oc = Some anifyEpisodes \<longrightarrow>
               rs_body response =
                 JArr (map (\<lambda>p. JObj [(''episodes'',
                                       JArr (map ?enc (findEpisodeData (pr_episodes p) md info None))),
                                      (''providerId'',
                                       JStr (if pr_providerId p = ''zoro'' then ''anirise''
                                             else ''anizone''))])
                         (ed_data (er_episodes anifyEpisodes)))"
      using body by (simp add: providerFlow_primary bundleObject_wire)
    have c4: "\<forall>consumetEpisodes.
               oc_anifyEpisodes oc = None \<and> oc_consumetEpisodes oc = Some consumetEpisodes \<longrightarrow>
               rs_body response =
                 JArr [JObj [(''episodes'',
                              JArr (map ?enc (findEpisodeData (map convertToEpisode consumetEpisodes)
                                                md info None))),
                             (''providerId'', JStr ''anizone'')]]"
      using body by (simp add: providerFlow_fallback bundleObject_wire)
    have c5: "\<forall>episodes.
               length (findEpisodeData episodes md info None) = length episodes
               \<and> (\<forall>i < length episodes.
                     resolvedWithoutImages md info (episodes ! i)
                       (findEpisodeData episodes md info None ! i))"
      by (simp add: findEpisodeData_without_images episodeEntryCatch_resolved)
    from c3 c4 c5 show ?thesis by blast
  qed
  from calls rest show ?thesis by blast
qed

lemma sample_retry_episodes:
  "findEpisodeData [sampleConvert 7] sampleMetadataEntries sampleInformation None =
     [\<lparr>re_id = ''c-7'', re_img = Some ''thumb7.png'', re_title = ''Seventh'',
       re_description = ''7th Episode of Shou'', re_number = 7\<rparr>]"
  by code_simp

lemma sample_retry_run:
  "fst (GET sampleConvert imagesFailOutcomes emptyCache 0 ''21'') =
     \<lparr>rs_status = 200,
      rs_body =
        JArr [JObj [(''episodes'',
                     JArr [JObj [(''id'', JStr ''c-7''), (''img'', JStr ''thumb7.png''),
                                 (''title'', JStr ''Seventh''),
                                 (''description'', JStr ''7th Episode of Shou''),
                                 (''number'', JNum 7)]]),
                    (''providerId'', JStr ''anizone'')]]\<rparr>"
  "snd (snd (GET sampleConvert imagesFailOutcomes emptyCache 0 ''21'')) =
     [ContentMetadata, EpisodesMetadata, Info, EpisodesMetadata, Info, AnifyEpisodes, ConsumetEpisodes]"
  by (simp_all add: GET_miss emptyCache_miss fetchData_def providerFlow_def sampleOutcomes_def
      metadataOutcomes_def imagesFailOutcomes_def sample_retry_episodes bundleObject_wire)

theorem GET_retry_without_images_witness:
  "ContentMetadata \<in> set (snd (snd (GET sampleConvert imagesFailOutcomes emptyCache 0 ''21'')))
   \<and> oc_contentMetadata imagesFailOutcomes = None
   \<and> oc_episodesMetadataRetry imagesFailOutcomes = Some sampleMetadataEntries
   \<and> oc_infoRetry imagesFailOutcomes = Some sampleInformation
   \<and> snd (snd (GET sampleConvert imagesFailOutcomes emptyCache 0 ''21'')) =
       [ContentMetadata, EpisodesMetadata, Info, EpisodesMetadata, Info, AnifyEpisodes, ConsumetEpisodes]
   \<and> rs_body (fst (GET sampleConvert imagesFailOutcomes emptyCache 0 ''21'')) =
        JArr [JObj [(''episodes'',
                     JArr [JObj [(''id'', JStr ''c-7''), (''img'', JStr ''thumb7.png''),
                                 (''title'', JStr ''Seventh''),
                                 (''description'', JStr ''7th Episode of Shou''),
                                 (''number'', JNum 7)]]),
                    (''providerId'', JStr ''anizone'')]]"
proof -
  let ?run = "GET sampleConvert imagesFailOutcomes emptyCache 0 ''21''"
  have run: "?run = (fst ?run, fst (snd ?run), snd (snd ?run))" by simp
  have issued: "ContentMetadata \<in> set (snd (snd ?run))"
    by (simp add: sample_retry_run)
  have out: "oc_contentMetadata imagesFailOutcomes = None"
    "oc_episodesMetadataRetry imagesFailOutcomes = Some sampleMetadataEntries"
    "oc_infoRetry imagesFailOutcomes = Some sampleInformation"
    by (simp_all add: imagesFailOutcomes_def metadataOutcomes_def sampleOutcomes_def)
  have aux: "oc_contentMetadata imagesFailOutcomes = None \<or> oc_episodesMetadata imagesFailOutcomes = None
      \<or> oc_info imagesFailOutcomes = None"
    using out by simp
  from GET_retry_without_images [OF run issued aux]
  show ?thesis
    by (simp add: sample_retry_run out)
qed

lemma distinctKeys_nullable: "distinctKeys (nullable v)"
  by (cases v) (simp_all add: nullable_def)

lemma distinctKeys_episodeObject: "distinctKeys (episodeObject e)"
  by (simp add: episodeObject_def distinctKeys_nullable)

lemma distinctKeys_bundleObject: "distinctKeys (bundleObject episodes providerId)"
  by (simp add: bundleObject_def distinctKeys_episodeObject)

lemma distinctKeys_providerFlow:
  "distinctKeys (fst (providerFlow convertToEpisode oc md info imgs))"
  by (cases "oc_anifyEpisodes oc"; cases "oc_consumetEpisodes oc")
     (simp_all add: providerFlow_def distinctKeys_bundleObject)

lemma distinctKeys_fetchData:
  "fetchData convertToEpisode oc = (Inr v, calls) \<Longrightarrow> distinctKeys v"
  by (cases oc rule: fetchData_cases)
     (auto simp add: fetchData_first fetchData_retry fetchData_fail distinctKeys_providerFlow)

lemma cache_get_later:
  "cache_get c t1 key = None \<Longrightarrow> t1 \<le> t2 \<Longrightarrow> cache_get c t2 key = None"
  by (auto simp add: cache_get_def split: option.splits prod.splits if_splits)

lemma cache_get_set:
  "cache_get (cache_set c t1 key s ttl) t2 key = (if t2 < t1 + ttl then Some s else None)"
  by (simp add: cache_get_def cache_set_def)

lemma cacheMiss_None: "cache_get c now key = None \<Longrightarrow> cacheMiss c now key"
  by (simp add: cacheMiss_def)

lemma GET_hit_canonical:
  assumes "cache_get c now (''episodesData:'' @ ident) = Some s" and "canonicalText s"
  shows "\<exists>v. GET convertToEpisode oc c now ident = (\<lparr>rs_status = 200, rs_body = v\<rparr>, c, [])
           \<and> JSON_stringify v = s"
proof -
  from assms(2) obtain v where v: "JSON_parse s = Inr v" "JSON_stringify v = s"
    by (auto simp add: canonicalText_def split: sum.splits)
  then have "s \<noteq> []" using stringify_nonempty [of v] by auto
  with assms(1) v show ?thesis by (simp add: GET_hit)
qed

lemma cache_get_same_entry:
  "cache_get c t1 key = Some s0 \<Longrightarrow> cache_get c t2 key = Some s \<Longrightarrow> s = s0"
  by (auto simp add: cache_get_def split: option.splits prod.splits if_splits)

text \<open>
  Claim C3.  Let the cache under \<open>episodesData:<id>\<close> be empty or hold a text the handler
  wrote, and let a first request be served.  Whenever the key holds an unexpired entry at
  a later request for the same identifier, that request issues no outbound request (the
  closure is not run), leaves the cache as it is, and answers with the status and the
  bytes of the first response: the cached text itself, which again is a text of the
  handler's.
\<close>

theorem cached_response_identical:
  assumes first: "GET convertToEpisode oc1 c0 t1 ident = (r1, c1, calls1)"
    and written: "cache_get c0 t1 (''episodesData:'' @ ident) = None
      \<or> (\<exists>s0. cache_get c0 t1 (''episodesData:'' @ ident) = Some s0 \<and> canonicalText s0)"
    and later: "t1 \<le> t2"
    and entry: "cache_get c1 t2 (''episodesData:'' @ ident) = Some s"
    and second: "GET convertToEpisode' oc2 c1 t2 ident = (r2, c2, calls2)"
  shows "calls2 = [] \<and> c2 = c1 \<and> rs_status r2 = rs_status r1
     \<and> responseText r2 = responseText r1 \<and> responseText r2 = s \<and> canonicalText s"
proof -
  let ?key = "''episodesData:'' @ ident"
  have answer: "rs_status r1 = 200 \<and> responseText r1 = s \<and> canonicalText s"
    using written
  proof
    assume fresh: "cache_get c0 t1 ?key = None"
    then have miss: "cacheMiss c0 t1 ?key" by (rule cacheMiss_None)
    obtain res calls where fd: "fetchData convertToEpisode oc1 = (res, calls)"
      by (cases "fetchData convertToEpisode oc1")
    show ?thesis
    proof (cases res)
      case (Inl e)
      with first miss fd have "c1 = c0" by (simp add: GET_miss)
      with fresh later entry show ?thesis using cache_get_later [of c0 t1 ?key t2] by simp
    next
      case (Inr v)
      with first miss fd
      have r1: "r1 = \<lparr>rs_status = 200, rs_body = v\<rparr>"
        and c1: "c1 = cache_set c0 t1 ?key (JSON_stringify v) (5 * 60 * 60)"
        by (simp_all add: GET_miss)
      from entry c1 have s: "s = JSON_stringify v"
        by (simp add: cache_get_set split: if_splits)
      from fd Inr have "distinctKeys v" by (simp add: distinctKeys_fetchData)
      then have "canonicalText s" unfolding s by (rule canonical_stringify)
      with r1 s show ?thesis by (simp add: responseText_def)
    qed
  next
    assume "\<exists>s0. cache_get c0 t1 ?key = Some s0 \<and> canonicalText s0"
    then obtain s0 where s0: "cache_get c0 t1 ?key = Some s0" "canonicalText s0" by blast
    from GET_hit_canonical [OF s0, of convertToEpisode oc1] first
    obtain v where "r1 = \<lparr>rs_status = 200, rs_body = v\<rparr>" "c1 = c0" "JSON_stringify v = s0"
      by auto
    moreover from this s0(1) entry have "s = s0" by (auto dest: cache_get_same_entry)
    ultimately show ?thesis using s0(2) by (simp add: responseText_def)
  qed
  then have "canonicalText s" by simp
  from GET_hit_canonical [OF entry this, of convertToEpisode' oc2] second
  obtain v where "r2 = \<lparr>rs_status = 200, rs_body = v\<rparr>" "c2 = c1" "calls2 = []" "JSON_stringify v = s"
    by auto
  with answer show ?thesis by (simp add: responseText_def)
qed

theorem cached_response_identical_witness:
  "cache_get emptyCache 0 (''episodesData:'' @ ''21'') = None
   \<and> cache_get (fst (snd (GET sampleConvert sampleOutcomes emptyCache 0 ''21''))) 100
        (''episodesData:'' @ ''21'')
       = Some (responseText (fst (GET sampleConvert sampleOutcomes emptyCache 0 ''21'')))
   \<and> snd (snd (GET sampleConvert deadOutcomes
                 (fst (snd (GET sampleConvert sampleOutcomes emptyCache 0 ''21''))) 100 ''21'')) = []
   \<and> responseText (fst (GET sampleConvert deadOutcomes
                 (fst (snd (GET sampleConvert sampleOutcomes emptyCache 0 ''21''))) 100 ''21''))
       = responseText (fst (GET sampleConvert sampleOutcomes emptyCache 0 ''21''))
   \<and> rs_status (fst (GET sampleConvert deadOutcomes
                 (fst (snd (GET sampleConvert sampleOutcomes emptyCache 0 ''21''))) 100 ''21'')) = 200"
proof -
  let ?first = "GET sampleConvert sampleOutcomes emptyCache 0 ''21''"
  let ?second = "GET sampleConvert deadOutcomes (fst (snd ?first)) 100 ''21''"
  have first: "?first = (fst ?first, fst (snd ?first), snd (snd ?first))" by simp
  have second: "?second = (fst ?second, fst (snd ?second), snd (snd ?second))" by simp
  have fresh: "cache_get emptyCache 0 (''episodesData:'' @ ''21'') = None"
    by (simp add: cache_get_def emptyCache_def)
  then have written: "cache_get emptyCache 0 (''episodesData:'' @ ''21'') = None
      \<or> (\<exists>s0. cache_get emptyCache 0 (''episodesData:'' @ ''21'') = Some s0 \<and> canonicalText s0)"
    by (rule disjI1)
  have later: "(0::nat) \<le> 100" by simp
  have entry: "cache_get (fst (snd ?first)) 100 (''episodesData:'' @ ''21'') = Some (responseText (fst ?first))"
    by (simp add: sample_fallback_run cache_get_set responseText_def)
  have status: "rs_status (fst ?first) = 200"
    by (simp add: sample_fallback_run)
  from cached_response_identical [OF first written later entry second] fresh entry status
  show ?thesis by simp
qed

end
